theory Spec2Isabelle
  imports Main
begin

section \<open>Enumerations (core/enums/enum.py)\<close>

datatype LLMErrorType = INVALID_JSON_FORMAT | GENERAL

datatype DocumentStatus = UNPROCESSED | PROCESSED | COMPLETELY_FAILED | PARTIAL_SUCCESS

text \<open>\<^verbatim>\<open>SubscriptionPlanType.FREE.value\<close> and \<^verbatim>\<open>SubscriptionPlanType.PRO.value\<close>: the handler
  compares the request's plan string with these two values.\<close>

definition SubscriptionPlanType_FREE :: string where
  "SubscriptionPlanType_FREE = ''FREE''"

definition SubscriptionPlanType_PRO :: string where
  "SubscriptionPlanType_PRO = ''PRO''"

definition FREE_PLAN_QUIZ_QUESTION_NUM :: nat where
  "FREE_PLAN_QUIZ_QUESTION_NUM = 5"

definition PRO_PLAN_QUIZ_QUESTION_NUM :: nat where
  "PRO_PLAN_QUIZ_QUESTION_NUM = 10"

section \<open>Chunking (worker.py, lines 39-42)\<close>

text \<open>
  \<^verbatim>\<open>for i in range(0, len(content), CHUNK_SIZE): chunks.append(content[i : i + CHUNK_SIZE])\<close>

  A document is a list of characters; one list element stands for one character of the
  Python string, so \<open>length\<close> is Python's \<open>len\<close>. The loop variable \<open>i\<close> is the third
  argument. Python's \<open>range\<close> raises on a zero step; the handler only ever passes
  \<open>CHUNK_SIZE = 1100\<close>, and the model returns no chunk for a zero step.
\<close>

definition CHUNK_SIZE :: nat where
  "CHUNK_SIZE = 1100"

function chunks_from :: "nat \<Rightarrow> string \<Rightarrow> nat \<Rightarrow> string list" where
  "chunks_from step content i =
     (if step = 0 \<or> length content \<le> i then []
      else take step (drop i content) # chunks_from step content (i + step))"
  by pat_completeness auto
termination
  by (relation "measure (\<lambda>(step, content, i). length content - i)") auto

declare chunks_from.simps [simp del]

definition make_chunks :: "nat \<Rightarrow> string \<Rightarrow> string list" where
  "make_chunks step content = chunks_from step content 0"

section \<open>External collaborators (interfaces only)\<close>

text \<open>
  The model client, the notifier, the object store and the database manager live outside
  \<^verbatim>\<open>worker.py\<close>. The handler's use of them is recorded as a trace of events, in the
  order the calls are made.

  The collaborators are taken to do their own work without failing: the object store
  returns the document, the notifier and the database manager return normally. What
  the model client answers is left open.

  \<^verbatim>\<open>predict_json\<close> returns the decoded JSON value, raises
  \<^verbatim>\<open>InvalidLLMJsonResponseError\<close> (carrying the raw response) or raises something else.
  A decoded value is an array of objects or a single object; an object is an association
  list from keys to string values, each key held once.
\<close>

type_synonym json_object = "(string \<times> string) list"

datatype json_value = JsonArray "json_object list" | JsonObject json_object

datatype llm_result =
    Parsed json_value
  | InvalidLLMJsonResponseError string
  | OtherLLMException

text \<open>The placeholders handed to \<^verbatim>\<open>fill_message_placeholders\<close>: \<open>note\<close> and
  \<open>prev_questions\<close> for question generation, \<open>note\<close> alone for the summary.\<close>

datatype llm_messages =
    QuestionMessages string string
  | SummaryMessages string

datatype db_call =
    InsertQuestion string string int nat
  | UpdateDocumentStatus DocumentStatus int
  | UpdateDocumentSummary string int
  | Commit
  | Close

datatype report_task = QuestionGeneration | SummaryGeneration

datatype report_message =
    NotJsonDecodable
  | FailedToGenerateQuestions
  | MissingQuestionAnswerKeys json_value

record llm_error_report =
  task :: report_task
  error_type :: LLMErrorType
  document_content :: string
  llm_response :: "string option"
  error_message :: report_message
  info :: "string \<times> int"

datatype event = LLMCall llm_messages | Report llm_error_report | DB db_call

datatype exception = KeyError string | TypeError | ValueError string

text \<open>
  The object store maps a key to the decoded document. The answer of the model client
  may depend on everything the run has done so far (the trace) and on the messages.
\<close>

record collaborators =
  get_object :: "string \<Rightarrow> string"
  predict_json :: "event list \<Rightarrow> llm_messages \<Rightarrow> llm_result"

section \<open>The handler's variables and effects (worker.py, lines 46-52)\<close>

record state =
  prev_questions :: "string list"
  free_plan_question_expose_count :: nat
  total_generated_question_count :: nat
  success_at_least_once :: bool
  failed_at_least_once :: bool
  trace :: "event list"

definition initial_state :: state where
  "initial_state =
     \<lparr>prev_questions = [], free_plan_question_expose_count = 0,
      total_generated_question_count = 0, success_at_least_once = False,
      failed_at_least_once = False, trace = []\<rparr>"

definition add_event :: "event \<Rightarrow> state \<Rightarrow> state" where
  "add_event e s = s\<lparr>trace := trace s @ [e]\<rparr>"

definition report_llm_error :: "llm_error_report \<Rightarrow> state \<Rightarrow> state" where
  "report_llm_error r s = add_event (Report r) s"

definition execute_query :: "db_call \<Rightarrow> state \<Rightarrow> state" where
  "execute_query q s = add_event (DB q) s"

definition commit :: "state \<Rightarrow> state" where
  "commit s = add_event (DB Commit) s"

definition close :: "state \<Rightarrow> state" where
  "close s = add_event (DB Close) s"

section \<open>Question generation (worker.py, lines 53-121)\<close>

text \<open>\<^verbatim>\<open>'\n'.join(prev_questions)\<close>\<close>

fun join_newline :: "string list \<Rightarrow> string" where
  "join_newline [] = []"
| "join_newline [q] = q"
| "join_newline (q # qs) = q @ CHR 0x0A # join_newline qs"

text \<open>Lines 85-87: \<^verbatim>\<open>prev_questions.append(question)\<close>, then
  \<^verbatim>\<open>if len(prev_questions) == 6: prev_questions.pop(0)\<close>.\<close>

definition append_prev_question :: "string \<Rightarrow> string list \<Rightarrow> string list" where
  "append_prev_question question pq =
     (let pq1 = pq @ [question] in if length pq1 = 6 then tl pq1 else pq1)"

text \<open>Lines 91-100: the delivery decision. The result is \<open>delivered_count\<close> together with
  the new value of \<open>free_plan_question_expose_count\<close>, or the exception raised.\<close>

definition decide_delivery :: "string \<Rightarrow> nat \<Rightarrow> exception + (nat \<times> nat)" where
  "decide_delivery subscription_plan expose_count =
     (if subscription_plan = SubscriptionPlanType_FREE then
        (if expose_count \<ge> FREE_PLAN_QUIZ_QUESTION_NUM then Inr (0, expose_count)
         else Inr (1, expose_count + 1))
      else if subscription_plan = SubscriptionPlanType_PRO then Inr (1, expose_count)
      else Inl (ValueError ''Wrong subscription plan type''))"

text \<open>Lines 82-105: the body of the loop over \<open>resp_dict\<close>. The first component of the
  result is the exception the body raised, if any; the state is returned as the body
  left it, since the mutations made before a raise stay.\<close>

definition process_q_set :: "string \<Rightarrow> int \<Rightarrow> json_object \<Rightarrow> state \<Rightarrow> exception option \<times> state" where
  "process_q_set subscription_plan db_pk q_set s =
     (case map_of q_set ''question'' of
        None \<Rightarrow> (Some (KeyError ''question''), s)
      | Some question \<Rightarrow>
          (case map_of q_set ''answer'' of
             None \<Rightarrow> (Some (KeyError ''answer''), s)
           | Some answer \<Rightarrow>
               (let s1 = s\<lparr>prev_questions := append_prev_question question (prev_questions s),
                           total_generated_question_count := total_generated_question_count s + 1\<rparr>
                in case decide_delivery subscription_plan (free_plan_question_expose_count s1) of
                     Inl e \<Rightarrow> (Some e, s1)
                   | Inr (delivered_count, n) \<Rightarrow>
                       (None,
                        commit (execute_query (InsertQuestion question answer db_pk delivered_count)
                          (s1\<lparr>free_plan_question_expose_count := n\<rparr>))))))"

fun for_q_sets :: "string \<Rightarrow> int \<Rightarrow> json_object list \<Rightarrow> state \<Rightarrow> exception option \<times> state" where
  "for_q_sets subscription_plan db_pk [] s = (None, s)"
| "for_q_sets subscription_plan db_pk (q_set # rest) s =
     (case process_q_set subscription_plan db_pk q_set s of
        (Some e, s') \<Rightarrow> (Some e, s')
      | (None, s') \<Rightarrow> for_q_sets subscription_plan db_pk rest s')"

text \<open>\<^verbatim>\<open>for q_set in resp_dict\<close>: an array yields its elements. An object yields its keys,
  which are strings, and indexing a string with \<^verbatim>\<open>"question"\<close> raises a TypeError at the
  first key; an empty object yields nothing.\<close>

definition insert_questions :: "string \<Rightarrow> int \<Rightarrow> json_value \<Rightarrow> state \<Rightarrow> exception option \<times> state" where
  "insert_questions subscription_plan db_pk resp_dict s =
     (case resp_dict of
        JsonArray q_sets \<Rightarrow> for_q_sets subscription_plan db_pk q_sets s
      | JsonObject kvs \<Rightarrow> (if kvs = [] then (None, s) else (Some TypeError, s)))"

text \<open>Lines 54-121: one iteration of the loop over the chunks.\<close>

definition process_chunk :: "collaborators \<Rightarrow> string \<Rightarrow> int \<Rightarrow> string \<Rightarrow> string \<Rightarrow> state \<Rightarrow> state" where
  "process_chunk env s3_key db_pk subscription_plan chunk s =
     (let prev_question_str = join_newline (prev_questions s);
          messages = QuestionMessages chunk prev_question_str;
          s1 = add_event (LLMCall messages) s
      in case predict_json env (trace s) messages of
           InvalidLLMJsonResponseError raw \<Rightarrow>
             (report_llm_error
                \<lparr>task = QuestionGeneration, error_type = INVALID_JSON_FORMAT,
                 document_content = chunk, llm_response = Some raw,
                 error_message = NotJsonDecodable, info = (s3_key, db_pk)\<rparr> s1)
               \<lparr>failed_at_least_once := True\<rparr>
         | OtherLLMException \<Rightarrow>
             (report_llm_error
                \<lparr>task = QuestionGeneration, error_type = GENERAL,
                 document_content = chunk, llm_response = None,
                 error_message = FailedToGenerateQuestions, info = (s3_key, db_pk)\<rparr> s1)
               \<lparr>failed_at_least_once := True\<rparr>
         | Parsed resp_dict \<Rightarrow>
             (case insert_questions subscription_plan db_pk resp_dict s1 of
                (Some e, s2) \<Rightarrow>
                  (report_llm_error
                     \<lparr>task = QuestionGeneration, error_type = GENERAL,
                      document_content = chunk, llm_response = None,
                      error_message = MissingQuestionAnswerKeys resp_dict,
                      info = (s3_key, db_pk)\<rparr> s2)
                    \<lparr>failed_at_least_once := True\<rparr>
              | (None, s2) \<Rightarrow> commit (s2\<lparr>success_at_least_once := True\<rparr>)))"

fun for_chunks :: "collaborators \<Rightarrow> string \<Rightarrow> int \<Rightarrow> string \<Rightarrow> string list \<Rightarrow> state \<Rightarrow> state" where
  "for_chunks env s3_key db_pk subscription_plan [] s = s"
| "for_chunks env s3_key db_pk subscription_plan (chunk # chunks) s =
     for_chunks env s3_key db_pk subscription_plan chunks
       (process_chunk env s3_key db_pk subscription_plan chunk s)"

section \<open>Status and summary (worker.py, lines 122-184)\<close>

text \<open>Lines 141-145: \<^verbatim>\<open>summary_input += chunk[:600]\<close>, leaving the loop as soon as
  \<^verbatim>\<open>len(summary_input) > 2000\<close>.\<close>

fun summary_loop :: "string list \<Rightarrow> string \<Rightarrow> string" where
  "summary_loop [] summary_input = summary_input"
| "summary_loop (chunk # chunks) summary_input =
     (let summary_input' = summary_input @ take 600 chunk
      in if length summary_input' > 2000 then summary_input'
         else summary_loop chunks summary_input')"

definition build_summary_input :: "string list \<Rightarrow> string" where
  "build_summary_input chunks = summary_loop chunks []"

text \<open>What the handler returns: a bare \<^verbatim>\<open>return\<close>, or the status dictionary of line 184.\<close>

datatype return_value = ReturnNone | ReturnDict nat string

text \<open>Lines 140-184. \<^verbatim>\<open>resp_dict["summary"]\<close> raises a KeyError on an object without the
  key and a TypeError on an array; both are caught by \<^verbatim>\<open>except Exception\<close>.\<close>

definition generate_summary :: "collaborators \<Rightarrow> string \<Rightarrow> int \<Rightarrow> string list \<Rightarrow> state \<Rightarrow> return_value \<times> state" where
  "generate_summary env s3_key db_pk chunks s =
     (let summary_input = build_summary_input chunks;
          messages = SummaryMessages summary_input;
          s1 = add_event (LLMCall messages) s;
          general = \<lparr>task = SummaryGeneration, error_type = GENERAL,
                     document_content = summary_input, llm_response = None,
                     error_message = FailedToGenerateQuestions, info = (s3_key, db_pk)\<rparr>
      in case predict_json env (trace s) messages of
           InvalidLLMJsonResponseError raw \<Rightarrow>
             (ReturnNone,
              report_llm_error
                \<lparr>task = SummaryGeneration, error_type = INVALID_JSON_FORMAT,
                 document_content = summary_input, llm_response = Some raw,
                 error_message = NotJsonDecodable, info = (s3_key, db_pk)\<rparr> s1)
         | OtherLLMException \<Rightarrow> (ReturnNone, report_llm_error general s1)
         | Parsed (JsonArray q_sets) \<Rightarrow> (ReturnNone, report_llm_error general s1)
         | Parsed (JsonObject kvs) \<Rightarrow>
             (case map_of kvs ''summary'' of
                None \<Rightarrow> (ReturnNone, report_llm_error general s1)
              | Some summary \<Rightarrow>
                  (ReturnDict 200 ''hi'',
                   close (commit (execute_query (UpdateDocumentSummary summary db_pk) s1)))))"

text \<open>Lines 122-184: what the handler does once the loop over the chunks has ended.\<close>

definition finish_run :: "collaborators \<Rightarrow> string \<Rightarrow> int \<Rightarrow> string list \<Rightarrow> state \<Rightarrow> return_value \<times> state" where
  "finish_run env s3_key db_pk chunks s =
     (if \<not> success_at_least_once s then
        (ReturnNone, commit (execute_query (UpdateDocumentStatus COMPLETELY_FAILED db_pk) s))
      else
        generate_summary env s3_key db_pk chunks
          (commit (execute_query
             (UpdateDocumentStatus
                (if failed_at_least_once s then PARTIAL_SUCCESS else PROCESSED) db_pk) s)))"

section \<open>The handler (worker.py, lines 17-184)\<close>

text \<open>
  The decoded request body: each field is present or not. \<open>body_db_pk\<close> holds the value
  of \<^verbatim>\<open>int(body["db_pk"])\<close>. A missing field raises the ValueError of line 23 before
  anything else is done.
\<close>

record body =
  body_s3_key :: "string option"
  body_db_pk :: "int option"
  body_subscription_plan :: "string option"

definition run_pipeline :: "collaborators \<Rightarrow> string \<Rightarrow> int \<Rightarrow> string \<Rightarrow> return_value \<times> state" where
  "run_pipeline env s3_key db_pk subscription_plan =
     (let content = get_object env s3_key;
          chunks = make_chunks CHUNK_SIZE content
      in finish_run env s3_key db_pk chunks
           (for_chunks env s3_key db_pk subscription_plan chunks initial_state))"

definition handler :: "collaborators \<Rightarrow> body \<Rightarrow> exception + (return_value \<times> state)" where
  "handler env b =
     (case (body_s3_key b, body_db_pk b, body_subscription_plan b) of
        (Some s3_key, Some db_pk, Some subscription_plan) \<Rightarrow>
          Inr (run_pipeline env s3_key db_pk subscription_plan)
      | _ \<Rightarrow> Inl (ValueError ''s3_key and db_pk and subscription_plan must be provided''))"

section \<open>Observations on a trace\<close>

fun llm_call_of :: "event \<Rightarrow> llm_messages list" where
  "llm_call_of (LLMCall m) = [m]"
| "llm_call_of _ = []"

fun summary_call_of :: "event \<Rightarrow> string list" where
  "summary_call_of (LLMCall (SummaryMessages summary_input)) = [summary_input]"
| "summary_call_of _ = []"

fun report_of :: "event \<Rightarrow> llm_error_report list" where
  "report_of (Report r) = [r]"
| "report_of _ = []"

fun db_call_of :: "event \<Rightarrow> db_call list" where
  "db_call_of (DB c) = [c]"
| "db_call_of _ = []"

definition llm_calls :: "event list \<Rightarrow> llm_messages list" where
  "llm_calls tr = concat (map llm_call_of tr)"

definition summary_calls :: "event list \<Rightarrow> string list" where
  "summary_calls tr = concat (map summary_call_of tr)"

definition reports :: "event list \<Rightarrow> llm_error_report list" where
  "reports tr = concat (map report_of tr)"

definition db_calls :: "event list \<Rightarrow> db_call list" where
  "db_calls tr = concat (map db_call_of tr)"

text \<open>
  Modelled from the spec: \<^verbatim>\<open>DatabaseManager\<close> (core/database/database_manager.py) is not
  part of the sources at hand; the spec gives its interface as \<^verbatim>\<open>execute\<close>, \<^verbatim>\<open>commit\<close>
  and \<^verbatim>\<open>close\<close>. A statement that is executed joins the open transaction, \<^verbatim>\<open>commit\<close>
  makes the statements of the open transaction permanent, and \<^verbatim>\<open>close\<close> ends the
  connection, dropping what was not committed. The state is the pair of the permanent
  statements and the statements of the open transaction, both in execution order.
\<close>

fun db_apply :: "db_call list \<times> db_call list \<Rightarrow> db_call \<Rightarrow> db_call list \<times> db_call list" where
  "db_apply (saved, pending) Commit = (saved @ pending, [])"
| "db_apply (saved, pending) Close = (saved, [])"
| "db_apply (saved, pending) q = (saved, pending @ [q])"

definition db_after :: "event list \<Rightarrow> db_call list \<times> db_call list" where
  "db_after tr = foldl db_apply ([], []) (db_calls tr)"

fun question_row_of :: "db_call \<Rightarrow> (string \<times> string \<times> int \<times> nat) list" where
  "question_row_of (InsertQuestion question answer db_pk delivered_count) =
     [(question, answer, db_pk, delivered_count)]"
| "question_row_of _ = []"

fun status_of :: "db_call \<Rightarrow> DocumentStatus list" where
  "status_of (UpdateDocumentStatus st db_pk) = [st]"
| "status_of _ = []"

fun summary_of :: "db_call \<Rightarrow> string list" where
  "summary_of (UpdateDocumentSummary summary db_pk) = [summary]"
| "summary_of _ = []"

text \<open>The question rows, the document statuses and the summaries that a trace leaves
  permanent, in the order they were written.\<close>

definition persisted_questions :: "event list \<Rightarrow> (string \<times> string \<times> int \<times> nat) list" where
  "persisted_questions tr = concat (map question_row_of (fst (db_after tr)))"

definition persisted_statuses :: "event list \<Rightarrow> DocumentStatus list" where
  "persisted_statuses tr = concat (map status_of (fst (db_after tr)))"

definition persisted_summaries :: "event list \<Rightarrow> string list" where
  "persisted_summaries tr = concat (map summary_of (fst (db_after tr)))"

definition delivered_counts :: "event list \<Rightarrow> nat list" where
  "delivered_counts tr = map (\<lambda>(question, answer, db_pk, delivered_count). delivered_count)
     (persisted_questions tr)"

section \<open>Chunk outcomes and the status rule, in the words of the specification\<close>

datatype ChunkOutcome = Success | InvalidLLMOutputFormat | GeneralFailure

text \<open>The outcome of one chunk is read off the branch that \<open>process_chunk\<close> takes: the
  decode error, any other error of the model call, an exception inside the loop over
  the response, or none of these.\<close>

definition chunk_outcome :: "collaborators \<Rightarrow> int \<Rightarrow> string \<Rightarrow> string \<Rightarrow> state \<Rightarrow> ChunkOutcome" where
  "chunk_outcome env db_pk subscription_plan chunk s =
     (let messages = QuestionMessages chunk (join_newline (prev_questions s))
      in case predict_json env (trace s) messages of
           InvalidLLMJsonResponseError raw \<Rightarrow> InvalidLLMOutputFormat
         | OtherLLMException \<Rightarrow> GeneralFailure
         | Parsed resp_dict \<Rightarrow>
             (case insert_questions subscription_plan db_pk resp_dict
                     (add_event (LLMCall messages) s) of
                (Some e, s2) \<Rightarrow> GeneralFailure
              | (None, s2) \<Rightarrow> Success))"

fun chunk_outcomes :: "collaborators \<Rightarrow> string \<Rightarrow> int \<Rightarrow> string \<Rightarrow> string list \<Rightarrow> state \<Rightarrow> ChunkOutcome list" where
  "chunk_outcomes env s3_key db_pk subscription_plan [] s = []"
| "chunk_outcomes env s3_key db_pk subscription_plan (chunk # chunks) s =
     chunk_outcome env db_pk subscription_plan chunk s
       # chunk_outcomes env s3_key db_pk subscription_plan chunks
           (process_chunk env s3_key db_pk subscription_plan chunk s)"

definition derive_status :: "ChunkOutcome list \<Rightarrow> DocumentStatus" where
  "derive_status outcomes =
     (if count_list outcomes Success = 0 then COMPLETELY_FAILED
      else if 0 < count_list outcomes InvalidLLMOutputFormat
              \<or> 0 < count_list outcomes GeneralFailure then PARTIAL_SUCCESS
      else PROCESSED)"

section \<open>Example collaborators\<close>

text \<open>A model client that gives one fixed answer to every question-generation call and
  another to the summary call, and an object store that holds one document.\<close>

definition scripted_llm :: "llm_result \<Rightarrow> llm_result \<Rightarrow> event list \<Rightarrow> llm_messages \<Rightarrow> llm_result" where
  "scripted_llm for_questions for_summary tr messages =
     (case messages of
        QuestionMessages n p \<Rightarrow> for_questions
      | SummaryMessages n \<Rightarrow> for_summary)"

definition example_env :: "string \<Rightarrow> llm_result \<Rightarrow> llm_result \<Rightarrow> collaborators" where
  "example_env document for_questions for_summary =
     \<lparr>get_object = (\<lambda>key. document),
      predict_json = scripted_llm for_questions for_summary\<rparr>"

definition example_body :: "string \<Rightarrow> body" where
  "example_body subscription_plan =
     \<lparr>body_s3_key = Some ''doc.txt'', body_db_pk = Some 7,
      body_subscription_plan = Some subscription_plan\<rparr>"

definition qa :: "string \<Rightarrow> string \<Rightarrow> json_object" where
  "qa question answer = [(''question'', question), (''answer'', answer)]"

definition good_summary :: llm_result where
  "good_summary = Parsed (JsonObject [(''summary'', ''S'')])"

text \<open>Five chunks of 700 characters each.\<close>

definition five_long_chunks :: "string list" where
  "five_long_chunks = replicate 5 (replicate 700 (CHR ''a''))"

text \<open>A document of 2201 characters (three chunks: 1100, 1100 and 1 characters) and a
  model client that answers every question call with the same two pairs.\<close>

definition three_chunk_document :: string where
  "three_chunk_document = replicate 2201 (CHR ''a'')"

definition two_pairs :: llm_result where
  "two_pairs = Parsed (JsonArray [qa ''Q1'' ''A1'', qa ''Q2'' ''A2''])"

section \<open>Auxiliary notions\<close>

text \<open>The last \<open>n\<close> elements of a list (all of it when it has fewer).\<close>

definition keep_last :: "nat \<Rightarrow> 'a list \<Rightarrow> 'a list" where
  "keep_last n xs = drop (length xs - n) xs"

text \<open>What the loop over the chunks keeps true under the FREE plan and under the PRO plan:
  nothing is left uncommitted, the question counter counts the persisted rows, and the
  delivered flags of the persisted rows follow the quota.\<close>

definition free_quota_inv :: "state \<Rightarrow> bool" where
  "free_quota_inv s \<longleftrightarrow>
     snd (db_after (trace s)) = []
   \<and> total_generated_question_count s = length (persisted_questions (trace s))
   \<and> free_plan_question_expose_count s
       = min (total_generated_question_count s) FREE_PLAN_QUIZ_QUESTION_NUM
   \<and> delivered_counts (trace s)
       = replicate (min (total_generated_question_count s) FREE_PLAN_QUIZ_QUESTION_NUM) 1
         @ replicate (total_generated_question_count s - FREE_PLAN_QUIZ_QUESTION_NUM) 0"

definition pro_inv :: "state \<Rightarrow> bool" where
  "pro_inv s \<longleftrightarrow>
     snd (db_after (trace s)) = []
   \<and> total_generated_question_count s = length (persisted_questions (trace s))
   \<and> delivered_counts (trace s) = replicate (total_generated_question_count s) 1"

text \<open>During the loop over the chunks nothing is left uncommitted and no document status
  has been written.\<close>

definition no_status_yet :: "state \<Rightarrow> bool" where
  "no_status_yet s \<longleftrightarrow>
     snd (db_after (trace s)) = [] \<and> persisted_statuses (trace s) = []"

text \<open>The reports of the summary step in a trace.\<close>

definition summary_reports :: "event list \<Rightarrow> llm_error_report list" where
  "summary_reports tr = filter (\<lambda>r. task r = SummaryGeneration) (reports tr)"

text \<open>During the loop over the chunks the trace holds no event of the summary step and
  no \<open>Close\<close>, and nothing is left uncommitted.\<close>

definition before_summary :: "state \<Rightarrow> bool" where
  "before_summary s \<longleftrightarrow>
     summary_calls (trace s) = []
   \<and> summary_reports (trace s) = []
   \<and> DB Close \<notin> set (trace s)
   \<and> snd (db_after (trace s)) = []
   \<and> persisted_summaries (trace s) = []"

text \<open>The question and answer of a response element that has both keys (the element is
  well formed), and nothing for an element that lacks one of them: the two lookups of
  line 82.\<close>

definition pair_of :: "json_object \<Rightarrow> (string \<times> string) list" where
  "pair_of q_set =
     (case map_of q_set ''question'' of
        None \<Rightarrow> []
      | Some question \<Rightarrow>
          (case map_of q_set ''answer'' of
             None \<Rightarrow> []
           | Some answer \<Rightarrow> [(question, answer)]))"

definition question_answer :: "string \<times> string \<times> int \<times> nat \<Rightarrow> string \<times> string" where
  "question_answer row = (fst row, fst (snd row))"

section \<open>The generated questions of a run\<close>

text \<open>
  The pairs that the loop of lines 81-105 takes from one response: the pairs of the
  elements of an array up to, and without, the first element that lacks a key (the loop
  is left there by the KeyError); none for a response that is an object. A model call
  that raises gives no pair.
\<close>

definition processed_pairs :: "json_value \<Rightarrow> (string \<times> string) list" where
  "processed_pairs resp_dict =
     (case resp_dict of
        JsonArray q_sets \<Rightarrow> concat (map pair_of (takeWhile (\<lambda>q_set. pair_of q_set \<noteq> []) q_sets))
      | JsonObject kvs \<Rightarrow> [])"

definition response_pairs :: "llm_result \<Rightarrow> (string \<times> string) list" where
  "response_pairs res =
     (case res of
        Parsed resp_dict \<Rightarrow> processed_pairs resp_dict
      | InvalidLLMJsonResponseError raw \<Rightarrow> []
      | OtherLLMException \<Rightarrow> [])"

text \<open>The questions generated over the chunks of a run, in generation order: for every
  chunk in turn, the pairs taken from the answer that the model client gives to the
  call made for that chunk.\<close>

fun generated_pairs :: "collaborators \<Rightarrow> string \<Rightarrow> int \<Rightarrow> string \<Rightarrow> string list \<Rightarrow> state \<Rightarrow> (string \<times> string) list" where
  "generated_pairs env s3_key db_pk subscription_plan [] s = []"
| "generated_pairs env s3_key db_pk subscription_plan (chunk # chunks) s =
     response_pairs (predict_json env (trace s)
                       (QuestionMessages chunk (join_newline (prev_questions s))))
       @ generated_pairs env s3_key db_pk subscription_plan chunks
           (process_chunk env s3_key db_pk subscription_plan chunk s)"

definition row_document :: "string \<times> string \<times> int \<times> nat \<Rightarrow> int" where
  "row_document row = fst (snd (snd row))"

text \<open>Nothing is left uncommitted and every persisted question row carries the document
  id of the run.\<close>

definition rows_of_document :: "int \<Rightarrow> state \<Rightarrow> bool" where
  "rows_of_document db_pk s \<longleftrightarrow>
     snd (db_after (trace s)) = []
   \<and> map row_document (persisted_questions (trace s))
       = replicate (length (persisted_questions (trace s))) db_pk"

text \<open>A model client that answers every question call with the same eight pairs.\<close>

definition eight_pairs :: llm_result where
  "eight_pairs = Parsed (JsonArray
     [qa ''Q1'' ''A1'', qa ''Q2'' ''A2'', qa ''Q3'' ''A3'', qa ''Q4'' ''A4'',
      qa ''Q5'' ''A5'', qa ''Q6'' ''A6'', qa ''Q7'' ''A7'', qa ''Q8'' ''A8''])"

section \<open>Properties of the chunker\<close>

lemma chunks_from_concat:
  "0 < step \<Longrightarrow> concat (chunks_from step content i) = drop i content"
proof (induction step content i rule: chunks_from.induct)
  case (1 step content i)
  show ?case
  proof (cases "length content \<le> i")
    case True
    then show ?thesis by (simp add: chunks_from.simps)
  next
    case False
    have rest: "drop (i + step) content = drop step (drop i content)"
      by (simp add: add.commute)
    have "concat (chunks_from step content i)
            = take step (drop i content) @ drop (i + step) content"
      using False "1.prems" "1.IH" by (simp add: chunks_from.simps [of step content i])
    then show ?thesis
      unfolding rest by (simp only: append_take_drop_id)
  qed
qed

lemma chunks_from_index_bound:
  "k < length (chunks_from step content i) \<Longrightarrow> i + k * step < length content"
proof (induction step content i arbitrary: k rule: chunks_from.induct)
  case (1 step content i)
  show ?case
  proof (cases "step = 0 \<or> length content \<le> i")
    case True
    with "1.prems" show ?thesis by (simp add: chunks_from.simps)
  next
    case False
    show ?thesis
    proof (cases k)
      case 0
      with False show ?thesis by simp
    next
      case (Suc j)
      with "1.prems" False have "j < length (chunks_from step content (i + step))"
        by (simp add: chunks_from.simps [of step content i])
      from "1.IH" [OF False this] Suc show ?thesis by (simp add: ac_simps)
    qed
  qed
qed

lemma chunks_from_nth:
  "k < length (chunks_from step content i) \<Longrightarrow>
     chunks_from step content i ! k = take step (drop (i + k * step) content)"
proof (induction step content i arbitrary: k rule: chunks_from.induct)
  case (1 step content i)
  show ?case
  proof (cases "step = 0 \<or> length content \<le> i")
    case True
    with "1.prems" show ?thesis by (simp add: chunks_from.simps)
  next
    case False
    show ?thesis
    proof (cases k)
      case 0
      with False show ?thesis by (simp add: chunks_from.simps [of step content i])
    next
      case (Suc j)
      with "1.prems" False have "j < length (chunks_from step content (i + step))"
        by (simp add: chunks_from.simps [of step content i])
      from "1.IH" [OF False this] Suc False show ?thesis
        by (simp add: chunks_from.simps [of step content i] ac_simps)
    qed
  qed
qed

lemma chunks_from_full_length:
  assumes "Suc k < length (chunks_from step content i)"
  shows "length (chunks_from step content i ! k) = step"
proof -
  have "i + Suc k * step < length content"
    using assms by (rule chunks_from_index_bound)
  moreover have "chunks_from step content i ! k = take step (drop (i + k * step) content)"
    using assms by (simp add: chunks_from_nth)
  ultimately show ?thesis by simp
qed

lemma chunks_from_nonempty:
  assumes "k < length (chunks_from step content i)"
  shows "chunks_from step content i ! k \<noteq> [] \<and> length (chunks_from step content i ! k) \<le> step"
proof -
  have "i + k * step < length content"
    using assms by (rule chunks_from_index_bound)
  moreover have "0 < step"
    using assms by (cases "step = 0") (simp_all add: chunks_from.simps)
  moreover have "chunks_from step content i ! k = take step (drop (i + k * step) content)"
    using assms by (simp add: chunks_from_nth)
  ultimately show ?thesis by auto
qed

text \<open>
  Claim C7. For every text \<open>T\<close> and every chunk size \<open>M > 0\<close> the chunker's pieces
  concatenate to \<open>T\<close>; piece \<open>k\<close> is the slice of \<open>T\<close> that starts at \<open>k * M\<close> and has at
  most \<open>M\<close> characters (so the pieces are contiguous and do not overlap); every piece
  that has a successor has exactly \<open>M\<close> characters; no piece is empty; and the empty
  text gives no piece at all.
\<close>

theorem chunker_partitions_text:
  assumes "0 < M"
  shows "concat (make_chunks M T) = T
       \<and> (\<forall>k < length (make_chunks M T). make_chunks M T ! k = take M (drop (k * M) T))
       \<and> (\<forall>k. Suc k < length (make_chunks M T) \<longrightarrow> length (make_chunks M T ! k) = M)
       \<and> (\<forall>k < length (make_chunks M T).
            make_chunks M T ! k \<noteq> [] \<and> length (make_chunks M T ! k) \<le> M)
       \<and> make_chunks M [] = []"
proof -
  have "concat (make_chunks M T) = T"
    using assms by (simp add: make_chunks_def chunks_from_concat)
  moreover have "\<forall>k < length (make_chunks M T). make_chunks M T ! k = take M (drop (k * M) T)"
    by (simp add: make_chunks_def chunks_from_nth)
  moreover have "\<forall>k. Suc k < length (make_chunks M T) \<longrightarrow> length (make_chunks M T ! k) = M"
    unfolding make_chunks_def by (blast intro: chunks_from_full_length)
  moreover have "\<forall>k < length (make_chunks M T).
      make_chunks M T ! k \<noteq> [] \<and> length (make_chunks M T ! k) \<le> M"
    unfolding make_chunks_def by (blast dest: chunks_from_nonempty)
  moreover have "make_chunks M [] = []"
    by (simp add: make_chunks_def chunks_from.simps)
  ultimately show ?thesis by blast
qed

theorem chunker_partitions_text_witness:
  "make_chunks 3 ''abcdefgh'' = [''abc'', ''def'', ''gh'']
   \<and> concat (make_chunks 3 ''abcdefgh'') = ''abcdefgh''
   \<and> length (make_chunks 3 ''abcdefgh'' ! 1) = 3
   \<and> make_chunks 3 ''abcdefgh'' ! 2 = take 3 (drop (2 * 3) ''abcdefgh'')"
proof -
  have pos: "0 < (3::nat)" by simp
  have ev: "make_chunks 3 ''abcdefgh'' = [''abc'', ''def'', ''gh'']"
    by (simp add: make_chunks_def chunks_from.simps)
  from chunker_partitions_text [OF pos, of "''abcdefgh''"] ev show ?thesis by simp
qed

section \<open>Effects and the database model: basic facts\<close>

lemmas effect_defs = add_event_def report_llm_error_def execute_query_def commit_def close_def

lemma db_calls_snoc [simp]:
  "db_calls (tr @ [e]) = db_calls tr @ db_call_of e"
  by (simp add: db_calls_def)

lemma db_calls_Nil [simp]: "db_calls [] = []"
  by (simp add: db_calls_def)

lemma db_after_Nil [simp]: "db_after [] = ([], [])"
  by (simp add: db_after_def)

lemma db_after_LLMCall [simp]: "db_after (tr @ [LLMCall m]) = db_after tr"
  by (simp add: db_after_def)

lemma db_after_Report [simp]: "db_after (tr @ [Report r]) = db_after tr"
  by (simp add: db_after_def)

lemma db_after_DB [simp]: "db_after (tr @ [DB c]) = db_apply (db_after tr) c"
  by (simp add: db_after_def)

lemma handler_Inr:
  "handler env b = Inr x \<longleftrightarrow>
     (\<exists>k pk plan. body_s3_key b = Some k \<and> body_db_pk b = Some pk
        \<and> body_subscription_plan b = Some plan \<and> x = run_pipeline env k pk plan)"
  by (auto simp: handler_def split: option.splits)

section \<open>The empty document\<close>

lemma make_chunks_empty: "make_chunks step [] = []"
  by (simp add: make_chunks_def chunks_from.simps)

text \<open>
  Claim C10. When the decoded document is empty the chunk list is empty, the run calls
  neither the model nor the notifier, writes no question row, persists the status
  COMPLETELY_FAILED and returns by the bare \<^verbatim>\<open>return\<close> of line 127, before the summary
  step: the whole trace is the status update and its commit.
\<close>

theorem empty_document_run:
  assumes "get_object env k = []"
  shows "make_chunks CHUNK_SIZE (get_object env k) = []
       \<and> handler env \<lparr>body_s3_key = Some k, body_db_pk = Some pk, body_subscription_plan = Some plan\<rparr>
           = Inr (ReturnNone,
                  initial_state\<lparr>trace := [DB (UpdateDocumentStatus COMPLETELY_FAILED pk), DB Commit]\<rparr>)
       \<and> llm_calls [DB (UpdateDocumentStatus COMPLETELY_FAILED pk), DB Commit] = []
       \<and> reports [DB (UpdateDocumentStatus COMPLETELY_FAILED pk), DB Commit] = []
       \<and> persisted_questions [DB (UpdateDocumentStatus COMPLETELY_FAILED pk), DB Commit] = []
       \<and> persisted_statuses [DB (UpdateDocumentStatus COMPLETELY_FAILED pk), DB Commit]
           = [COMPLETELY_FAILED]"
proof -
  have chunks: "make_chunks CHUNK_SIZE (get_object env k) = []"
    using assms by (simp add: make_chunks_empty)
  have run: "run_pipeline env k pk plan
      = (ReturnNone, initial_state\<lparr>trace := [DB (UpdateDocumentStatus COMPLETELY_FAILED pk), DB Commit]\<rparr>)"
    using chunks by (simp add: run_pipeline_def finish_run_def initial_state_def effect_defs)
  have obs: "llm_calls [DB (UpdateDocumentStatus COMPLETELY_FAILED pk), DB Commit] = []
       \<and> reports [DB (UpdateDocumentStatus COMPLETELY_FAILED pk), DB Commit] = []
       \<and> persisted_questions [DB (UpdateDocumentStatus COMPLETELY_FAILED pk), DB Commit] = []
       \<and> persisted_statuses [DB (UpdateDocumentStatus COMPLETELY_FAILED pk), DB Commit]
           = [COMPLETELY_FAILED]"
    by (simp add: llm_calls_def reports_def persisted_questions_def persisted_statuses_def
        db_after_def db_calls_def)
  from chunks run obs show ?thesis by (simp add: handler_def)
qed

theorem empty_document_run_witness:
  "handler (example_env [] OtherLLMException OtherLLMException) (example_body ''PRO'')
     = Inr (ReturnNone, initial_state\<lparr>trace := [DB (UpdateDocumentStatus COMPLETELY_FAILED 7), DB Commit]\<rparr>)"
proof -
  have h: "get_object (example_env [] OtherLLMException OtherLLMException) ''doc.txt'' = []"
    by (simp add: example_env_def)
  from empty_document_run [OF h, of 7 "''PRO''"] show ?thesis
    by (simp add: example_body_def)
qed

section \<open>The summary input\<close>

lemma summary_loop_prefixes:
  "\<exists>k \<le> length chunks.
      summary_loop chunks acc = acc @ concat (map (take 600) (take k chunks))
    \<and> (\<forall>j. 0 < j \<and> j < k \<longrightarrow> length (acc @ concat (map (take 600) (take j chunks))) \<le> 2000)
    \<and> (k < length chunks \<longrightarrow> 0 < k \<and> 2000 < length (summary_loop chunks acc))"
proof (induction chunks arbitrary: acc)
  case Nil
  show ?case by simp
next
  case (Cons chunk chunks)
  show ?case
  proof (cases "2000 < length (acc @ take 600 chunk)")
    case True
    then have "summary_loop (chunk # chunks) acc = acc @ take 600 chunk"
      by (simp add: Let_def)
    then have "summary_loop (chunk # chunks) acc
          = acc @ concat (map (take 600) (take 1 (chunk # chunks)))
        \<and> (\<forall>j. 0 < j \<and> j < (1::nat) \<longrightarrow>
              length (acc @ concat (map (take 600) (take j (chunk # chunks)))) \<le> 2000)
        \<and> ((1::nat) < length (chunk # chunks) \<longrightarrow>
              0 < (1::nat) \<and> 2000 < length (summary_loop (chunk # chunks) acc))"
      using True by simp
    moreover have "(1::nat) \<le> length (chunk # chunks)" by simp
    ultimately show ?thesis by blast
  next
    case False
    then have step: "summary_loop (chunk # chunks) acc = summary_loop chunks (acc @ take 600 chunk)"
      by (simp add: Let_def)
    from Cons.IH [of "acc @ take 600 chunk"] obtain k where
      k: "k \<le> length chunks"
      and eq: "summary_loop chunks (acc @ take 600 chunk)
                 = (acc @ take 600 chunk) @ concat (map (take 600) (take k chunks))"
      and below: "\<forall>j. 0 < j \<and> j < k \<longrightarrow>
          length ((acc @ take 600 chunk) @ concat (map (take 600) (take j chunks))) \<le> 2000"
      and over: "k < length chunks \<longrightarrow>
          0 < k \<and> 2000 < length (summary_loop chunks (acc @ take 600 chunk))"
      by blast
    have a: "summary_loop (chunk # chunks) acc
          = acc @ concat (map (take 600) (take (Suc k) (chunk # chunks)))"
      using step eq by simp
    have b: "\<forall>j. 0 < j \<and> j < Suc k \<longrightarrow>
          length (acc @ concat (map (take 600) (take j (chunk # chunks)))) \<le> 2000"
    proof (intro allI impI)
      fix j assume j: "0 < j \<and> j < Suc k"
      then obtain i where i: "j = Suc i" by (cases j) auto
      show "length (acc @ concat (map (take 600) (take j (chunk # chunks)))) \<le> 2000"
      proof (cases i)
        case 0
        with i False show ?thesis by simp
      next
        case (Suc i')
        with i j have "0 < i \<and> i < k" by simp
        with below have "length ((acc @ take 600 chunk) @ concat (map (take 600) (take i chunks))) \<le> 2000"
          by blast
        with i show ?thesis by simp
      qed
    qed
    have c: "Suc k < length (chunk # chunks) \<longrightarrow>
          0 < Suc k \<and> 2000 < length (summary_loop (chunk # chunks) acc)"
      using over step by simp
    have "Suc k \<le> length (chunk # chunks)" using k by simp
    with a b c show ?thesis by blast
  qed
qed

text \<open>
  Claim C8. The summary input is the concatenation, in order, of the first 600
  characters of each of the first \<open>k\<close> chunks, for some \<open>k\<close>: whole prefixes only, none
  cut short and nothing removed afterwards. While fewer than \<open>k\<close> prefixes had been
  appended the accumulated length was at most 2000 (the loop went on), and when the loop
  stopped before the last chunk (\<open>k\<close> below the number of chunks) the accumulated
  length is above 2000.
\<close>

theorem summary_input_whole_prefixes:
  "\<exists>k \<le> length chunks.
      build_summary_input chunks = concat (map (take 600) (take k chunks))
    \<and> (\<forall>j < k. length (concat (map (take 600) (take j chunks))) \<le> 2000)
    \<and> (k < length chunks \<longrightarrow> 2000 < length (build_summary_input chunks))"
proof -
  from summary_loop_prefixes [of chunks "[]"] obtain k where
    k: "k \<le> length chunks"
    and eq: "summary_loop chunks [] = [] @ concat (map (take 600) (take k chunks))"
    and below: "\<forall>j. 0 < j \<and> j < k \<longrightarrow>
        length ([] @ concat (map (take 600) (take j chunks))) \<le> 2000"
    and over: "k < length chunks \<longrightarrow> 0 < k \<and> 2000 < length (summary_loop chunks [])"
    by blast
  have "\<forall>j < k. length (concat (map (take 600) (take j chunks))) \<le> 2000"
  proof (intro allI impI)
    fix j assume "j < k"
    show "length (concat (map (take 600) (take j chunks))) \<le> 2000"
    proof (cases "j = 0")
      case True then show ?thesis by simp
    next
      case False
      with \<open>j < k\<close> below show ?thesis by simp
    qed
  qed
  with k eq over show ?thesis
    unfolding build_summary_input_def by auto
qed

theorem summary_input_whole_prefixes_witness:
  "build_summary_input five_long_chunks = concat (map (take 600) (take 4 five_long_chunks))
   \<and> 2000 < length (build_summary_input five_long_chunks)
   \<and> length (concat (map (take 600) (take 3 five_long_chunks))) \<le> 2000
   \<and> 4 < length five_long_chunks"
proof -
  have run: "build_summary_input five_long_chunks = replicate 2400 (CHR ''a'')"
    unfolding five_long_chunks_def build_summary_input_def
    by (simp add: numeral_eq_Suc Let_def flip: replicate_add)
  have parts: "concat (map (take 600) (take 4 five_long_chunks)) = replicate 2400 (CHR ''a'')
      \<and> length (concat (map (take 600) (take 3 five_long_chunks))) = 1800
      \<and> length five_long_chunks = 5"
    unfolding five_long_chunks_def
    by (simp add: numeral_eq_Suc flip: replicate_add)
  from summary_input_whole_prefixes [of five_long_chunks] run parts show ?thesis
    by simp
qed

section \<open>The window of recent questions\<close>

lemma append_prev_question_keep_last:
  "length w \<le> 5 \<Longrightarrow> append_prev_question q w = keep_last 5 (w @ [q])"
  by (cases w) (auto simp: append_prev_question_def keep_last_def Let_def)

lemma append_prev_question_length:
  "length w \<le> 5 \<Longrightarrow> length (append_prev_question q w) \<le> 5"
  by (auto simp: append_prev_question_def Let_def)

lemma seven:
  "append_prev_question q7 (append_prev_question q6 (append_prev_question q5
     (append_prev_question q4 (append_prev_question q3 (append_prev_question q2
       (append_prev_question q1 [])))))) = [q3, q4, q5, q6, q7]"
  by (simp add: append_prev_question_def)

lemma process_q_set_window:
  "length (prev_questions s) \<le> 5 \<Longrightarrow>
     length (prev_questions (snd (process_q_set plan pk q_set s))) \<le> 5"
  by (auto simp: process_q_set_def Let_def effect_defs append_prev_question_length
           split: option.splits sum.splits)

lemma for_q_sets_window:
  "length (prev_questions s) \<le> 5 \<Longrightarrow>
     length (prev_questions (snd (for_q_sets plan pk q_sets s))) \<le> 5"
proof (induction q_sets arbitrary: s)
  case Nil
  then show ?case by simp
next
  case (Cons q_set rest)
  obtain e s' where step: "process_q_set plan pk q_set s = (e, s')"
    by (cases "process_q_set plan pk q_set s")
  from process_q_set_window [OF Cons.prems, of plan pk q_set] step
  have w: "length (prev_questions s') \<le> 5" by simp
  show ?case
  proof (cases e)
    case None
    with step Cons.IH [OF w] show ?thesis by simp
  next
    case (Some x)
    with step w show ?thesis by simp
  qed
qed

lemma insert_questions_window:
  "length (prev_questions s) \<le> 5 \<Longrightarrow>
     length (prev_questions (snd (insert_questions plan pk resp s))) \<le> 5"
  by (cases resp) (simp_all add: insert_questions_def for_q_sets_window)

lemma process_chunk_window:
  assumes "length (prev_questions s) \<le> 5"
  shows "length (prev_questions (process_chunk env k pk plan chunk s)) \<le> 5"
proof (cases "predict_json env (trace s) (QuestionMessages chunk (join_newline (prev_questions s)))")
  case (Parsed resp)
  let ?s1 = "add_event (LLMCall (QuestionMessages chunk (join_newline (prev_questions s)))) s"
  obtain e s2 where ins: "insert_questions plan pk resp ?s1 = (e, s2)"
    by (cases "insert_questions plan pk resp ?s1")
  have "length (prev_questions ?s1) \<le> 5"
    using assms by (simp add: effect_defs)
  from insert_questions_window [OF this, of plan pk resp] ins
  have "length (prev_questions s2) \<le> 5" by simp
  with Parsed ins show ?thesis
    by (cases e) (simp_all add: process_chunk_def Let_def effect_defs)
next
  case (InvalidLLMJsonResponseError raw)
  with assms show ?thesis by (simp add: process_chunk_def Let_def effect_defs)
next
  case OtherLLMException
  with assms show ?thesis by (simp add: process_chunk_def Let_def effect_defs)
qed

lemma for_chunks_window:
  "length (prev_questions s) \<le> 5 \<Longrightarrow>
     length (prev_questions (for_chunks env k pk plan chunks s)) \<le> 5"
  by (induction chunks arbitrary: s) (simp_all add: process_chunk_window)

lemmas plan_defs = SubscriptionPlanType_FREE_def SubscriptionPlanType_PRO_def
  FREE_PLAN_QUIZ_QUESTION_NUM_def

lemmas run_defs = process_q_set_def decide_delivery_def append_prev_question_def
  insert_questions_def process_chunk_def finish_run_def generate_summary_def
  run_pipeline_def handler_def initial_state_def

text \<open>
  Claim C4, as the code has it. The claim's window of 6 fails: line 86 evicts when the
  length equals 6, so the window is back to 5 entries at the end of every step, and
  after the 7th question both the 1st and the 2nd entry are gone.
\<close>

theorem dedup_window_seven_questions_counterexample:
  "prev_questions (snd (for_q_sets ''PRO'' 7
        [qa ''q1'' ''a1'', qa ''q2'' ''a2'', qa ''q3'' ''a3'', qa ''q4'' ''a4'',
         qa ''q5'' ''a5'', qa ''q6'' ''a6'', qa ''q7'' ''a7''] initial_state))
      = [''q3'', ''q4'', ''q5'', ''q6'', ''q7'']
   \<and> ''q2'' \<notin> set (prev_questions (snd (for_q_sets ''PRO'' 7
        [qa ''q1'' ''a1'', qa ''q2'' ''a2'', qa ''q3'' ''a3'', qa ''q4'' ''a4'',
         qa ''q5'' ''a5'', qa ''q6'' ''a6'', qa ''q7'' ''a7''] initial_state)))"
  by (simp add: run_defs plan_defs effect_defs qa_def Let_def)

text \<open>
  Claim C4, amended. At the end of every run (and of every part of a run, which is a run
  over fewer chunks) the window holds at most 5 entries; one step of the window turns a
  window \<open>w\<close> of at most 5 entries into the last 5 entries of \<open>w\<close> followed by the new
  question, so the oldest entry leaves as soon as the length reaches 6; and after seven
  questions the window holds the 3rd to the 7th, in order.
\<close>

theorem dedup_window_keeps_last_five:
  "length (prev_questions (for_chunks env k pk plan chunks initial_state)) \<le> 5
   \<and> (length w \<le> 5 \<longrightarrow> append_prev_question q w = keep_last 5 (w @ [q]))
   \<and> append_prev_question q7 (append_prev_question q6 (append_prev_question q5
        (append_prev_question q4 (append_prev_question q3 (append_prev_question q2
          (append_prev_question q1 [])))))) = [q3, q4, q5, q6, q7]"
proof -
  have "length (prev_questions initial_state) \<le> 5"
    by (simp add: initial_state_def)
  then have bound: "length (prev_questions (for_chunks env k pk plan chunks initial_state)) \<le> 5"
    by (rule for_chunks_window)
  have step: "length w \<le> 5 \<longrightarrow> append_prev_question q w = keep_last 5 (w @ [q])"
    by (simp add: append_prev_question_keep_last)
  from bound step seven [of q7 q6 q5 q4 q3 q2 q1] show ?thesis
    by blast
qed

theorem dedup_window_keeps_last_five_witness:
  "append_prev_question ''f'' [''a'', ''b'', ''c'', ''d'', ''e''] = [''b'', ''c'', ''d'', ''e'', ''f'']
   \<and> length (prev_questions (for_chunks
        (example_env ''abc'' (Parsed (JsonArray [qa ''Q1'' ''A1''])) good_summary)
        ''doc.txt'' 7 ''PRO'' [''abc''] initial_state)) \<le> 5"
proof -
  have h: "length [''a'', ''b'', ''c'', ''d'', ''e''] \<le> 5" by simp
  from dedup_window_keeps_last_five
    [of "example_env ''abc'' (Parsed (JsonArray [qa ''Q1'' ''A1''])) good_summary"
        "''doc.txt''" 7 "''PRO''" "[''abc'']" "[''a'', ''b'', ''c'', ''d'', ''e'']" "''f''"] h
  show ?thesis by (simp add: keep_last_def)
qed

section \<open>Runs on concrete inputs\<close>

text \<open>
  Claim C3, on the code. With the plan \<^verbatim>\<open>"BASIC"\<close> and a response holding one well-formed
  pair, line 100 raises the ValueError inside the \<^verbatim>\<open>try\<close> of line 80, and the
  \<^verbatim>\<open>except Exception\<close> of line 107 catches it: the handler reports a GENERAL error for
  the chunk, goes on, persists COMPLETELY_FAILED and returns; nothing reaches the
  invoker.
\<close>

theorem wrong_plan_is_swallowed:
  "handler (example_env ''abc'' (Parsed (JsonArray [qa ''Q1'' ''A1''])) good_summary)
           (example_body ''BASIC'')
   = Inr (ReturnNone,
          \<lparr>prev_questions = [''Q1''], free_plan_question_expose_count = 0,
           total_generated_question_count = 1, success_at_least_once = False,
           failed_at_least_once = True,
           trace =
             [LLMCall (QuestionMessages ''abc'' []),
              Report \<lparr>task = QuestionGeneration, error_type = GENERAL,
                      document_content = ''abc'', llm_response = None,
                      error_message = MissingQuestionAnswerKeys (JsonArray [qa ''Q1'' ''A1'']),
                      info = (''doc.txt'', 7)\<rparr>,
              DB (UpdateDocumentStatus COMPLETELY_FAILED 7), DB Commit]\<rparr>)"
  by code_simp

text \<open>
  Claim C1, as stated, fails: when the only chunk fails, the status COMPLETELY_FAILED is
  persisted and the handler returns at line 127; the trace holds no summary call.
\<close>

theorem no_summary_after_complete_failure_counterexample:
  "handler (example_env ''abc'' OtherLLMException good_summary) (example_body ''FREE'')
   = Inr (ReturnNone,
          \<lparr>prev_questions = [], free_plan_question_expose_count = 0,
           total_generated_question_count = 0, success_at_least_once = False,
           failed_at_least_once = True,
           trace =
             [LLMCall (QuestionMessages ''abc'' []),
              Report \<lparr>task = QuestionGeneration, error_type = GENERAL,
                      document_content = ''abc'', llm_response = None,
                      error_message = FailedToGenerateQuestions,
                      info = (''doc.txt'', 7)\<rparr>,
              DB (UpdateDocumentStatus COMPLETELY_FAILED 7), DB Commit]\<rparr>)
   \<and> summary_calls
        [LLMCall (QuestionMessages ''abc'' []),
         Report \<lparr>task = QuestionGeneration, error_type = GENERAL,
                 document_content = ''abc'', llm_response = None,
                 error_message = FailedToGenerateQuestions,
                 info = (''doc.txt'', 7)\<rparr>,
         DB (UpdateDocumentStatus COMPLETELY_FAILED 7), DB Commit] = []"
  by code_simp


section \<open>Invariants of the question loop\<close>

text \<open>
  A property of the state holds after the loop over the chunks when it holds before and
  every elementary step of the loop keeps it: the model call, the error report that sets
  \<open>failed_at_least_once\<close>, the window and counter update that precedes a raise at line
  100 (taken only when the delivery decision raises), the insert of one question with its commit, and the commit that follows a chunk
  without exception.
\<close>

lemma process_q_set_preserves:
  assumes "P s"
    and raise_step: "\<And>s q e. P s \<Longrightarrow>
      decide_delivery plan (free_plan_question_expose_count s) = Inl e \<Longrightarrow>
      P (s\<lparr>prev_questions := append_prev_question q (prev_questions s),
            total_generated_question_count := total_generated_question_count s + 1\<rparr>)"
    and insert_step: "\<And>s q a d n. P s \<Longrightarrow>
      decide_delivery plan (free_plan_question_expose_count s) = Inr (d, n) \<Longrightarrow>
      P (commit (execute_query (InsertQuestion q a pk d)
           (s\<lparr>prev_questions := append_prev_question q (prev_questions s),
              total_generated_question_count := total_generated_question_count s + 1,
              free_plan_question_expose_count := n\<rparr>)))"
  shows "P (snd (process_q_set plan pk q_set s))"
proof (cases "map_of q_set ''question''")
  case None
  with assms(1) show ?thesis by (simp add: process_q_set_def)
next
  case q: (Some q)
  show ?thesis
  proof (cases "map_of q_set ''answer''")
    case None
    with q assms(1) show ?thesis by (simp add: process_q_set_def)
  next
    case a: (Some a)
    show ?thesis
    proof (cases "decide_delivery plan (free_plan_question_expose_count s)")
      case (Inl e)
      with q a raise_step [OF assms(1) Inl, of q] show ?thesis
        by (simp add: process_q_set_def Let_def)
    next
      case (Inr dn)
      obtain d n where dn: "dn = (d, n)" by (cases dn)
      from insert_step [OF assms(1), of d n q a] Inr dn q a show ?thesis
        by (simp add: process_q_set_def Let_def)
    qed
  qed
qed

lemma for_q_sets_preserves:
  assumes "P s"
    and raise_step: "\<And>s q e. P s \<Longrightarrow>
      decide_delivery plan (free_plan_question_expose_count s) = Inl e \<Longrightarrow>
      P (s\<lparr>prev_questions := append_prev_question q (prev_questions s),
            total_generated_question_count := total_generated_question_count s + 1\<rparr>)"
    and insert_step: "\<And>s q a d n. P s \<Longrightarrow>
      decide_delivery plan (free_plan_question_expose_count s) = Inr (d, n) \<Longrightarrow>
      P (commit (execute_query (InsertQuestion q a pk d)
           (s\<lparr>prev_questions := append_prev_question q (prev_questions s),
              total_generated_question_count := total_generated_question_count s + 1,
              free_plan_question_expose_count := n\<rparr>)))"
  shows "P (snd (for_q_sets plan pk q_sets s))"
  using assms(1)
proof (induction q_sets arbitrary: s)
  case Nil
  then show ?case by simp
next
  case (Cons q_set rest)
  obtain e s' where step: "process_q_set plan pk q_set s = (e, s')"
    by (cases "process_q_set plan pk q_set s")
  have "P (snd (process_q_set plan pk q_set s))"
    using Cons.prems raise_step insert_step by (rule process_q_set_preserves)
  with step have P': "P s'" by simp
  show ?case
  proof (cases e)
    case None
    with step Cons.IH [OF P'] show ?thesis by simp
  next
    case (Some x)
    with step P' show ?thesis by simp
  qed
qed

lemma insert_questions_preserves:
  assumes "P s"
    and raise_step: "\<And>s q e. P s \<Longrightarrow>
      decide_delivery plan (free_plan_question_expose_count s) = Inl e \<Longrightarrow>
      P (s\<lparr>prev_questions := append_prev_question q (prev_questions s),
            total_generated_question_count := total_generated_question_count s + 1\<rparr>)"
    and insert_step: "\<And>s q a d n. P s \<Longrightarrow>
      decide_delivery plan (free_plan_question_expose_count s) = Inr (d, n) \<Longrightarrow>
      P (commit (execute_query (InsertQuestion q a pk d)
           (s\<lparr>prev_questions := append_prev_question q (prev_questions s),
              total_generated_question_count := total_generated_question_count s + 1,
              free_plan_question_expose_count := n\<rparr>)))"
  shows "P (snd (insert_questions plan pk resp s))"
proof (cases resp)
  case (JsonArray q_sets)
  have "P (snd (for_q_sets plan pk q_sets s))"
    using assms(1) raise_step insert_step by (rule for_q_sets_preserves)
  with JsonArray show ?thesis by (simp add: insert_questions_def)
next
  case (JsonObject kvs)
  with assms(1) show ?thesis by (simp add: insert_questions_def)
qed

lemma process_chunk_preserves:
  assumes "P s"
    and call_step: "\<And>s c p. P s \<Longrightarrow> P (add_event (LLMCall (QuestionMessages c p)) s)"
    and report_step: "\<And>s r. P s \<Longrightarrow> task r = QuestionGeneration \<Longrightarrow>
      P ((report_llm_error r s)\<lparr>failed_at_least_once := True\<rparr>)"
    and raise_step: "\<And>s q e. P s \<Longrightarrow>
      decide_delivery plan (free_plan_question_expose_count s) = Inl e \<Longrightarrow>
      P (s\<lparr>prev_questions := append_prev_question q (prev_questions s),
            total_generated_question_count := total_generated_question_count s + 1\<rparr>)"
    and insert_step: "\<And>s q a d n. P s \<Longrightarrow>
      decide_delivery plan (free_plan_question_expose_count s) = Inr (d, n) \<Longrightarrow>
      P (commit (execute_query (InsertQuestion q a pk d)
           (s\<lparr>prev_questions := append_prev_question q (prev_questions s),
              total_generated_question_count := total_generated_question_count s + 1,
              free_plan_question_expose_count := n\<rparr>)))"
    and success_step: "\<And>s. P s \<Longrightarrow> P (commit (s\<lparr>success_at_least_once := True\<rparr>))"
  shows "P (process_chunk env k pk plan chunk s)"
proof -
  let ?m = "QuestionMessages chunk (join_newline (prev_questions s))"
  let ?s1 = "add_event (LLMCall ?m) s"
  have P1: "P ?s1" using assms(1) by (rule call_step)
  show ?thesis
  proof (cases "predict_json env (trace s) ?m")
    case (Parsed resp)
    obtain e s2 where ins: "insert_questions plan pk resp ?s1 = (e, s2)"
      by (cases "insert_questions plan pk resp ?s1")
    have "P (snd (insert_questions plan pk resp ?s1))"
      using P1 raise_step insert_step by (rule insert_questions_preserves)
    with ins have P2: "P s2" by simp
    show ?thesis
    proof (cases e)
      case None
      with Parsed ins success_step [OF P2] show ?thesis
        by (simp add: process_chunk_def Let_def)
    next
      case (Some x)
      with Parsed ins report_step [OF P2] show ?thesis
        by (simp add: process_chunk_def Let_def)
    qed
  next
    case (InvalidLLMJsonResponseError raw)
    with report_step [OF P1] show ?thesis
      by (simp add: process_chunk_def Let_def)
  next
    case OtherLLMException
    with report_step [OF P1] show ?thesis
      by (simp add: process_chunk_def Let_def)
  qed
qed

lemma for_chunks_preserves:
  assumes "P s"
    and call_step: "\<And>s c p. P s \<Longrightarrow> P (add_event (LLMCall (QuestionMessages c p)) s)"
    and report_step: "\<And>s r. P s \<Longrightarrow> task r = QuestionGeneration \<Longrightarrow>
      P ((report_llm_error r s)\<lparr>failed_at_least_once := True\<rparr>)"
    and raise_step: "\<And>s q e. P s \<Longrightarrow>
      decide_delivery plan (free_plan_question_expose_count s) = Inl e \<Longrightarrow>
      P (s\<lparr>prev_questions := append_prev_question q (prev_questions s),
            total_generated_question_count := total_generated_question_count s + 1\<rparr>)"
    and insert_step: "\<And>s q a d n. P s \<Longrightarrow>
      decide_delivery plan (free_plan_question_expose_count s) = Inr (d, n) \<Longrightarrow>
      P (commit (execute_query (InsertQuestion q a pk d)
           (s\<lparr>prev_questions := append_prev_question q (prev_questions s),
              total_generated_question_count := total_generated_question_count s + 1,
              free_plan_question_expose_count := n\<rparr>)))"
    and success_step: "\<And>s. P s \<Longrightarrow> P (commit (s\<lparr>success_at_least_once := True\<rparr>))"
  shows "P (for_chunks env k pk plan chunks s)"
  using assms(1)
proof (induction chunks arbitrary: s)
  case Nil
  then show ?case by simp
next
  case (Cons chunk chunks)
  have "P (process_chunk env k pk plan chunk s)"
    using Cons.prems call_step report_step raise_step insert_step success_step
    by (rule process_chunk_preserves)
  then show ?case using Cons.IH by simp
qed

section \<open>The database model along a run\<close>

lemma db_calls_Cons [simp]: "db_calls (e # es) = db_call_of e @ db_calls es"
  by (simp add: db_calls_def)

lemma db_after_append [simp]:
  "db_after (tr @ es) = foldl db_apply (db_after tr) (db_calls es)"
  by (simp add: db_after_def db_calls_def)

lemma db_apply_Commit [simp]: "db_apply st Commit = (fst st @ snd st, [])"
  by (cases st) simp

lemma db_apply_Close [simp]: "db_apply st Close = (fst st, [])"
  by (cases st) simp

lemma db_apply_InsertQuestion [simp]:
  "db_apply st (InsertQuestion q a pk d) = (fst st, snd st @ [InsertQuestion q a pk d])"
  by (cases st) simp

lemma db_apply_UpdateDocumentStatus [simp]:
  "db_apply st (UpdateDocumentStatus x pk) = (fst st, snd st @ [UpdateDocumentStatus x pk])"
  by (cases st) simp

lemma db_apply_UpdateDocumentSummary [simp]:
  "db_apply st (UpdateDocumentSummary x pk) = (fst st, snd st @ [UpdateDocumentSummary x pk])"
  by (cases st) simp

lemma finish_run_db:
  assumes "snd (db_after (trace s)) = []"
  shows "\<exists>extra. fst (db_after (trace (snd (finish_run env k pk chunks s))))
            = fst (db_after (trace s))
              @ UpdateDocumentStatus
                  (if \<not> success_at_least_once s then COMPLETELY_FAILED
                   else if failed_at_least_once s then PARTIAL_SUCCESS else PROCESSED) pk
              # extra
          \<and> concat (map question_row_of extra) = []
          \<and> concat (map status_of extra) = []"
  using assms
  by (auto simp: finish_run_def generate_summary_def Let_def effect_defs
           split: llm_result.splits json_value.splits option.splits)

lemma finish_run_questions:
  assumes "snd (db_after (trace s)) = []"
  shows "persisted_questions (trace (snd (finish_run env k pk chunks s)))
           = persisted_questions (trace s)"
proof -
  from finish_run_db [OF assms, of env k pk chunks] obtain extra where
    "fst (db_after (trace (snd (finish_run env k pk chunks s))))
       = fst (db_after (trace s))
         @ UpdateDocumentStatus
             (if \<not> success_at_least_once s then COMPLETELY_FAILED
              else if failed_at_least_once s then PARTIAL_SUCCESS else PROCESSED) pk
         # extra"
    and "concat (map question_row_of extra) = []"
    by blast
  then show ?thesis by (simp add: persisted_questions_def)
qed

lemma finish_run_statuses:
  assumes "snd (db_after (trace s)) = []"
  shows "persisted_statuses (trace (snd (finish_run env k pk chunks s)))
           = persisted_statuses (trace s)
             @ [if \<not> success_at_least_once s then COMPLETELY_FAILED
                else if failed_at_least_once s then PARTIAL_SUCCESS else PROCESSED]"
proof -
  from finish_run_db [OF assms, of env k pk chunks] obtain extra where
    "fst (db_after (trace (snd (finish_run env k pk chunks s))))
       = fst (db_after (trace s))
         @ UpdateDocumentStatus
             (if \<not> success_at_least_once s then COMPLETELY_FAILED
              else if failed_at_least_once s then PARTIAL_SUCCESS else PROCESSED) pk
         # extra"
    and "concat (map status_of extra) = []"
    by blast
  then show ?thesis by (simp add: persisted_statuses_def)
qed

section \<open>The delivery quota\<close>

lemma decide_delivery_FREE:
  "decide_delivery SubscriptionPlanType_FREE n
     = (if FREE_PLAN_QUIZ_QUESTION_NUM \<le> n then Inr (0, n) else Inr (1, n + 1))"
  by (simp add: decide_delivery_def)

lemma decide_delivery_PRO:
  "decide_delivery SubscriptionPlanType_PRO n = Inr (1, n)"
  by (simp add: decide_delivery_def plan_defs)

lemma free_quota_inv_initial: "free_quota_inv initial_state"
  by (simp add: free_quota_inv_def initial_state_def persisted_questions_def
      delivered_counts_def)

lemma pro_inv_initial: "pro_inv initial_state"
  by (simp add: pro_inv_def initial_state_def persisted_questions_def delivered_counts_def)

lemma free_quota_inv_insert:
  assumes inv: "free_quota_inv s"
    and dec: "decide_delivery SubscriptionPlanType_FREE (free_plan_question_expose_count s)
                = Inr (d, n)"
  shows "free_quota_inv (commit (execute_query (InsertQuestion q a pk d)
           (s\<lparr>prev_questions := append_prev_question q (prev_questions s),
              total_generated_question_count := total_generated_question_count s + 1,
              free_plan_question_expose_count := n\<rparr>)))"
proof (cases "FREE_PLAN_QUIZ_QUESTION_NUM \<le> free_plan_question_expose_count s")
  case True
  with dec have dn: "d = 0" "n = free_plan_question_expose_count s"
    by (simp_all add: decide_delivery_FREE)
  from inv True have big: "FREE_PLAN_QUIZ_QUESTION_NUM \<le> total_generated_question_count s"
    by (simp add: free_quota_inv_def)
  then have "replicate (Suc (total_generated_question_count s) - FREE_PLAN_QUIZ_QUESTION_NUM) (0::nat)
      = replicate (total_generated_question_count s - FREE_PLAN_QUIZ_QUESTION_NUM) 0 @ [0]"
    by (simp add: Suc_diff_le replicate_append_same)
  with inv dn big show ?thesis
    by (simp add: free_quota_inv_def effect_defs persisted_questions_def delivered_counts_def
        min_def)
next
  case False
  with dec have dn: "d = 1" "n = free_plan_question_expose_count s + 1"
    by (simp_all add: decide_delivery_FREE)
  from inv False have small: "total_generated_question_count s < FREE_PLAN_QUIZ_QUESTION_NUM"
    by (simp add: free_quota_inv_def min_def split: if_splits)
  have "replicate (Suc (total_generated_question_count s)) (1::nat)
      = replicate (total_generated_question_count s) 1 @ [1]"
    by (simp add: replicate_append_same)
  with inv dn small show ?thesis
    by (simp add: free_quota_inv_def effect_defs persisted_questions_def delivered_counts_def
        min_def)
qed

lemma pro_inv_insert:
  assumes inv: "pro_inv s"
    and dec: "decide_delivery SubscriptionPlanType_PRO (free_plan_question_expose_count s)
                = Inr (d, n)"
  shows "pro_inv (commit (execute_query (InsertQuestion q a pk d)
           (s\<lparr>prev_questions := append_prev_question q (prev_questions s),
              total_generated_question_count := total_generated_question_count s + 1,
              free_plan_question_expose_count := n\<rparr>)))"
proof -
  from dec have "d = 1" by (simp add: decide_delivery_PRO)
  moreover have "replicate (Suc (total_generated_question_count s)) (1::nat)
      = replicate (total_generated_question_count s) 1 @ [1]"
    by (simp add: replicate_append_same)
  ultimately show ?thesis
    using inv
    by (simp add: pro_inv_def effect_defs persisted_questions_def delivered_counts_def)
qed

lemma free_quota_inv_loop:
  "free_quota_inv (for_chunks env k pk SubscriptionPlanType_FREE chunks initial_state)"
proof (rule for_chunks_preserves [where P = free_quota_inv])
  show "free_quota_inv initial_state" by (rule free_quota_inv_initial)
next
  fix s c p assume "free_quota_inv s"
  then show "free_quota_inv (add_event (LLMCall (QuestionMessages c p)) s)"
    by (simp add: free_quota_inv_def effect_defs persisted_questions_def delivered_counts_def)
next
  fix s r assume "free_quota_inv s"
  then show "free_quota_inv ((report_llm_error r s)\<lparr>failed_at_least_once := True\<rparr>)"
    by (simp add: free_quota_inv_def effect_defs persisted_questions_def delivered_counts_def)
next
  fix s :: state and q :: string and e :: exception
  assume "decide_delivery SubscriptionPlanType_FREE (free_plan_question_expose_count s) = Inl e"
  then have False by (simp add: decide_delivery_FREE split: if_splits)
  then show "free_quota_inv
      (s\<lparr>prev_questions := append_prev_question q (prev_questions s),
         total_generated_question_count := total_generated_question_count s + 1\<rparr>)" ..
next
  fix s q a d n
  assume "free_quota_inv s"
    and "decide_delivery SubscriptionPlanType_FREE (free_plan_question_expose_count s) = Inr (d, n)"
  then show "free_quota_inv (commit (execute_query (InsertQuestion q a pk d)
           (s\<lparr>prev_questions := append_prev_question q (prev_questions s),
              total_generated_question_count := total_generated_question_count s + 1,
              free_plan_question_expose_count := n\<rparr>)))"
    by (rule free_quota_inv_insert)
next
  fix s assume "free_quota_inv s"
  then show "free_quota_inv (commit (s\<lparr>success_at_least_once := True\<rparr>))"
    by (simp add: free_quota_inv_def effect_defs persisted_questions_def delivered_counts_def)
qed

lemma pro_inv_loop:
  "pro_inv (for_chunks env k pk SubscriptionPlanType_PRO chunks initial_state)"
proof (rule for_chunks_preserves [where P = pro_inv])
  show "pro_inv initial_state" by (rule pro_inv_initial)
next
  fix s c p assume "pro_inv s"
  then show "pro_inv (add_event (LLMCall (QuestionMessages c p)) s)"
    by (simp add: pro_inv_def effect_defs persisted_questions_def delivered_counts_def)
next
  fix s r assume "pro_inv s"
  then show "pro_inv ((report_llm_error r s)\<lparr>failed_at_least_once := True\<rparr>)"
    by (simp add: pro_inv_def effect_defs persisted_questions_def delivered_counts_def)
next
  fix s :: state and q :: string and e :: exception
  assume "decide_delivery SubscriptionPlanType_PRO (free_plan_question_expose_count s) = Inl e"
  then have False by (simp add: decide_delivery_PRO)
  then show "pro_inv
      (s\<lparr>prev_questions := append_prev_question q (prev_questions s),
         total_generated_question_count := total_generated_question_count s + 1\<rparr>)" ..
next
  fix s q a d n
  assume "pro_inv s"
    and "decide_delivery SubscriptionPlanType_PRO (free_plan_question_expose_count s) = Inr (d, n)"
  then show "pro_inv (commit (execute_query (InsertQuestion q a pk d)
           (s\<lparr>prev_questions := append_prev_question q (prev_questions s),
              total_generated_question_count := total_generated_question_count s + 1,
              free_plan_question_expose_count := n\<rparr>)))"
    by (rule pro_inv_insert)
next
  fix s assume "pro_inv s"
  then show "pro_inv (commit (s\<lparr>success_at_least_once := True\<rparr>))"
    by (simp add: pro_inv_def effect_defs persisted_questions_def delivered_counts_def)
qed

section \<open>Whole runs: the question counter and the example runs\<close>

lemma finish_run_total:
  "total_generated_question_count (snd (finish_run env k pk chunks s))
     = total_generated_question_count s"
  by (auto simp: finish_run_def generate_summary_def Let_def effect_defs
           split: llm_result.splits json_value.splits option.splits)

lemma three_chunks:
  "make_chunks CHUNK_SIZE three_chunk_document
     = [replicate 1100 (CHR ''a''), replicate 1100 (CHR ''a''), replicate 1 (CHR ''a'')]"
  by (simp add: make_chunks_def CHUNK_SIZE_def three_chunk_document_def chunks_from.simps)

lemmas example_defs = example_env_def scripted_llm_def two_pairs_def good_summary_def
  example_body_def qa_def


section \<open>The document status\<close>

lemma insert_questions_flags:
  "success_at_least_once (snd (insert_questions plan pk resp s)) = success_at_least_once s
   \<and> failed_at_least_once (snd (insert_questions plan pk resp s)) = failed_at_least_once s"
proof (rule insert_questions_preserves
    [where P = "\<lambda>t. success_at_least_once t = success_at_least_once s
                  \<and> failed_at_least_once t = failed_at_least_once s"])
  show "success_at_least_once s = success_at_least_once s
      \<and> failed_at_least_once s = failed_at_least_once s" by simp
qed (simp_all add: effect_defs)

lemma process_chunk_flags:
  "success_at_least_once (process_chunk env k pk plan chunk s)
     = (success_at_least_once s \<or> chunk_outcome env pk plan chunk s = Success)
   \<and> failed_at_least_once (process_chunk env k pk plan chunk s)
     = (failed_at_least_once s \<or> chunk_outcome env pk plan chunk s \<noteq> Success)"
proof -
  let ?m = "QuestionMessages chunk (join_newline (prev_questions s))"
  let ?s1 = "add_event (LLMCall ?m) s"
  show ?thesis
  proof (cases "predict_json env (trace s) ?m")
    case (Parsed resp)
    obtain e s2 where ins: "insert_questions plan pk resp ?s1 = (e, s2)"
      by (cases "insert_questions plan pk resp ?s1")
    from insert_questions_flags [of plan pk resp ?s1] ins
    have flags: "success_at_least_once s2 = success_at_least_once s"
      "failed_at_least_once s2 = failed_at_least_once s"
      by (simp_all add: effect_defs)
    from Parsed ins flags show ?thesis
      by (cases e) (simp_all add: process_chunk_def chunk_outcome_def Let_def effect_defs)
  next
    case (InvalidLLMJsonResponseError raw)
    then show ?thesis
      by (simp add: process_chunk_def chunk_outcome_def Let_def effect_defs)
  next
    case OtherLLMException
    then show ?thesis
      by (simp add: process_chunk_def chunk_outcome_def Let_def effect_defs)
  qed
qed

lemma for_chunks_flags:
  "success_at_least_once (for_chunks env k pk plan chunks s)
     = (success_at_least_once s \<or> Success \<in> set (chunk_outcomes env k pk plan chunks s))
   \<and> failed_at_least_once (for_chunks env k pk plan chunks s)
     = (failed_at_least_once s
        \<or> (\<exists>x \<in> set (chunk_outcomes env k pk plan chunks s). x \<noteq> Success))"
proof (induction chunks arbitrary: s)
  case Nil
  show ?case by simp
next
  case (Cons chunk chunks)
  from Cons.IH [of "process_chunk env k pk plan chunk s"]
    process_chunk_flags [of env k pk plan chunk s]
  show ?case by auto
qed

lemma derive_status_flags:
  "derive_status outcomes
     = (if Success \<notin> set outcomes then COMPLETELY_FAILED
        else if \<exists>x \<in> set outcomes. x \<noteq> Success then PARTIAL_SUCCESS
        else PROCESSED)"
proof -
  have other: "(\<exists>x \<in> set outcomes. x \<noteq> Success)
      \<longleftrightarrow> InvalidLLMOutputFormat \<in> set outcomes \<or> GeneralFailure \<in> set outcomes"
  proof
    assume "\<exists>x \<in> set outcomes. x \<noteq> Success"
    then obtain x where x: "x \<in> set outcomes" "x \<noteq> Success" by blast
    have "x = InvalidLLMOutputFormat \<or> x = GeneralFailure"
      using x(2) ChunkOutcome.exhaust [of x] by blast
    with x(1) show "InvalidLLMOutputFormat \<in> set outcomes \<or> GeneralFailure \<in> set outcomes"
      by blast
  next
    assume "InvalidLLMOutputFormat \<in> set outcomes \<or> GeneralFailure \<in> set outcomes"
    then show "\<exists>x \<in> set outcomes. x \<noteq> Success" by auto
  qed
  show ?thesis
    unfolding other by (simp add: derive_status_def count_list_0_iff)
qed

lemma no_status_yet_loop:
  "no_status_yet (for_chunks env k pk plan chunks initial_state)"
proof (rule for_chunks_preserves [where P = no_status_yet])
  show "no_status_yet initial_state"
    by (simp add: no_status_yet_def initial_state_def persisted_statuses_def)
qed (simp_all add: no_status_yet_def effect_defs persisted_statuses_def)

text \<open>
  Claim C6. The run persists exactly one document status, and it is the one the rule
  gives for the outcomes of the chunks: COMPLETELY_FAILED when no chunk reached Success,
  otherwise PARTIAL_SUCCESS when some chunk failed (invalid format or general failure),
  otherwise PROCESSED.
\<close>

theorem status_from_outcomes:
  assumes "handler env \<lparr>body_s3_key = Some k, body_db_pk = Some pk,
                         body_subscription_plan = Some plan\<rparr> = Inr (r, s)"
  shows "persisted_statuses (trace s)
           = [derive_status (chunk_outcomes env k pk plan
                (make_chunks CHUNK_SIZE (get_object env k)) initial_state)]"
proof -
  let ?chunks = "make_chunks CHUNK_SIZE (get_object env k)"
  let ?loop = "for_chunks env k pk plan ?chunks initial_state"
  from assms have s: "s = snd (finish_run env k pk ?chunks ?loop)"
    by (simp add: handler_def run_pipeline_def Let_def)
  have inv: "no_status_yet ?loop" by (rule no_status_yet_loop)
  then have quiet: "snd (db_after (trace ?loop)) = []"
    and none: "persisted_statuses (trace ?loop) = []"
    by (simp_all add: no_status_yet_def)
  have "persisted_statuses (trace s)
      = persisted_statuses (trace ?loop)
        @ [if \<not> success_at_least_once ?loop then COMPLETELY_FAILED
           else if failed_at_least_once ?loop then PARTIAL_SUCCESS else PROCESSED]"
    unfolding s using quiet by (rule finish_run_statuses)
  moreover have "success_at_least_once ?loop
      = (Success \<in> set (chunk_outcomes env k pk plan ?chunks initial_state))"
    and "failed_at_least_once ?loop
      = (\<exists>x \<in> set (chunk_outcomes env k pk plan ?chunks initial_state). x \<noteq> Success)"
    using for_chunks_flags [of env k pk plan ?chunks initial_state]
    by (simp_all add: initial_state_def)
  ultimately show ?thesis
    using none by (simp add: derive_status_flags)
qed

lemma three_chunk_outcomes:
  "chunk_outcomes (example_env three_chunk_document two_pairs good_summary) ''doc.txt'' 7 ''FREE''
     (make_chunks CHUNK_SIZE three_chunk_document) initial_state = [Success, Success, Success]"
  by (simp add: three_chunks example_defs chunk_outcome_def process_chunk_def
      insert_questions_def process_q_set_def decide_delivery_def append_prev_question_def
      plan_defs effect_defs Let_def initial_state_def)

theorem status_from_outcomes_witness:
  "persisted_statuses
     (trace (snd (run_pipeline (example_env three_chunk_document two_pairs good_summary)
                    ''doc.txt'' 7 ''FREE''))) = [PROCESSED]"
proof -
  let ?env = "example_env three_chunk_document two_pairs good_summary"
  let ?run = "run_pipeline ?env ''doc.txt'' 7 ''FREE''"
  have h: "handler ?env \<lparr>body_s3_key = Some ''doc.txt'', body_db_pk = Some 7,
                          body_subscription_plan = Some ''FREE''\<rparr> = Inr (fst ?run, snd ?run)"
    by (simp add: handler_def)
  have doc: "get_object ?env ''doc.txt'' = three_chunk_document"
    by (simp add: example_env_def)
  have rule: "derive_status [Success, Success, Success] = PROCESSED"
    by (simp add: derive_status_def)
  from status_from_outcomes [OF h] three_chunk_outcomes rule show ?thesis
    by (simp add: doc)
qed

section \<open>The end of a run\<close>

lemma before_summary_loop:
  "before_summary (for_chunks env k pk plan chunks initial_state)"
proof (rule for_chunks_preserves [where P = before_summary])
  show "before_summary initial_state"
    by (simp add: before_summary_def initial_state_def summary_calls_def summary_reports_def
        reports_def persisted_summaries_def)
qed (simp_all add: before_summary_def effect_defs summary_calls_def summary_reports_def
       reports_def persisted_summaries_def)

text \<open>The three ways in which lines 122-184 end: the early return of line 127, a return
  after a failed summary (lines 168 and 177), and the return of line 184.\<close>

lemma finish_run_cases:
  obtains
    (completely_failed)
      "\<not> success_at_least_once s"
      "finish_run env k pk chunks s
         = (ReturnNone,
            s\<lparr>trace := trace s @ [DB (UpdateDocumentStatus COMPLETELY_FAILED pk), DB Commit]\<rparr>)"
  | (summary_failed) rep where
      "success_at_least_once s"
      "task rep = SummaryGeneration"
      "finish_run env k pk chunks s
         = (ReturnNone,
            s\<lparr>trace := trace s @
               [DB (UpdateDocumentStatus
                      (if failed_at_least_once s then PARTIAL_SUCCESS else PROCESSED) pk),
                DB Commit, LLMCall (SummaryMessages (build_summary_input chunks)),
                Report rep]\<rparr>)"
  | (summary_saved) summary where
      "success_at_least_once s"
      "finish_run env k pk chunks s
         = (ReturnDict 200 ''hi'',
            s\<lparr>trace := trace s @
               [DB (UpdateDocumentStatus
                      (if failed_at_least_once s then PARTIAL_SUCCESS else PROCESSED) pk),
                DB Commit, LLMCall (SummaryMessages (build_summary_input chunks)),
                DB (UpdateDocumentSummary summary pk), DB Commit, DB Close]\<rparr>)"
proof (cases "success_at_least_once s")
  case False
  then show ?thesis
    by (intro completely_failed) (simp_all add: finish_run_def effect_defs)
next
  case True
  let ?st = "if failed_at_least_once s then PARTIAL_SUCCESS else PROCESSED"
  let ?s1 = "commit (execute_query (UpdateDocumentStatus ?st pk) s)"
  let ?m = "SummaryMessages (build_summary_input chunks)"
  have fin: "finish_run env k pk chunks s = generate_summary env k pk chunks ?s1"
    using True by (simp add: finish_run_def)
  show ?thesis
  proof (cases "predict_json env (trace ?s1) ?m")
    case (InvalidLLMJsonResponseError raw)
    show ?thesis
      by (rule summary_failed [OF True, of
            "\<lparr>task = SummaryGeneration, error_type = INVALID_JSON_FORMAT,
              document_content = build_summary_input chunks, llm_response = Some raw,
              error_message = NotJsonDecodable, info = (k, pk)\<rparr>"])
         (use InvalidLLMJsonResponseError in
            \<open>simp_all add: fin generate_summary_def Let_def effect_defs\<close>)
  next
    case OtherLLMException
    show ?thesis
      by (rule summary_failed [OF True, of
            "\<lparr>task = SummaryGeneration, error_type = GENERAL,
              document_content = build_summary_input chunks, llm_response = None,
              error_message = FailedToGenerateQuestions, info = (k, pk)\<rparr>"])
         (use OtherLLMException in
            \<open>simp_all add: fin generate_summary_def Let_def effect_defs\<close>)
  next
    case (Parsed resp)
    show ?thesis
    proof (cases resp)
      case (JsonArray q_sets)
      show ?thesis
        by (rule summary_failed [OF True, of
              "\<lparr>task = SummaryGeneration, error_type = GENERAL,
                document_content = build_summary_input chunks, llm_response = None,
                error_message = FailedToGenerateQuestions, info = (k, pk)\<rparr>"])
           (use Parsed JsonArray in
              \<open>simp_all add: fin generate_summary_def Let_def effect_defs\<close>)
    next
      case (JsonObject kvs)
      show ?thesis
      proof (cases "map_of kvs ''summary''")
        case None
        show ?thesis
          by (rule summary_failed [OF True, of
                "\<lparr>task = SummaryGeneration, error_type = GENERAL,
                  document_content = build_summary_input chunks, llm_response = None,
                  error_message = FailedToGenerateQuestions, info = (k, pk)\<rparr>"])
             (use Parsed JsonObject None in
                \<open>simp_all add: fin generate_summary_def Let_def effect_defs\<close>)
      next
        case (Some summary)
        show ?thesis
          by (rule summary_saved [OF True, of summary])
             (use Parsed JsonObject Some in
                \<open>simp_all add: fin generate_summary_def Let_def effect_defs\<close>)
      qed
    qed
  qed
qed

lemma loop_status:
  fixes env k pk plan chunks
  defines "loop \<equiv> for_chunks env k pk plan chunks initial_state"
  shows "(if \<not> success_at_least_once loop then COMPLETELY_FAILED
          else if failed_at_least_once loop then PARTIAL_SUCCESS else PROCESSED)
         = derive_status (chunk_outcomes env k pk plan chunks initial_state)"
    and "success_at_least_once loop
         \<longleftrightarrow> derive_status (chunk_outcomes env k pk plan chunks initial_state)
               \<noteq> COMPLETELY_FAILED"
  using for_chunks_flags [of env k pk plan chunks initial_state]
  by (simp_all add: loop_def initial_state_def derive_status_flags)

lemma summary_calls_append [simp]:
  "summary_calls (tr @ es) = summary_calls tr @ summary_calls es"
  by (simp add: summary_calls_def)

lemma summary_calls_Cons [simp]:
  "summary_calls (e # es) = summary_call_of e @ summary_calls es"
  by (simp add: summary_calls_def)

lemma summary_calls_Nil [simp]: "summary_calls [] = []"
  by (simp add: summary_calls_def)

lemma summary_reports_append [simp]:
  "summary_reports (tr @ es) = summary_reports tr @ summary_reports es"
  by (simp add: summary_reports_def reports_def)

lemma summary_reports_Cons [simp]:
  "summary_reports (e # es)
     = filter (\<lambda>r. task r = SummaryGeneration) (report_of e) @ summary_reports es"
  by (simp add: summary_reports_def reports_def)

lemma summary_reports_Nil [simp]: "summary_reports [] = []"
  by (simp add: summary_reports_def reports_def)

text \<open>
  Claim C1, amended. The trace of a run is: the events of the loop over the chunks, with
  no summary call among them; the update of the document status, which is the status
  derived from the chunk outcomes, and its commit; and then, when the status is
  COMPLETELY_FAILED, nothing more (the handler returns \<^verbatim>\<open>None\<close>), and otherwise the
  summary call on the summary input, followed by events that hold no further summary
  call.
\<close>

theorem summary_attempted_unless_completely_failed:
  assumes "handler env \<lparr>body_s3_key = Some k, body_db_pk = Some pk,
                         body_subscription_plan = Some plan\<rparr> = Inr (r, s)"
  shows "\<exists>pre st post.
           trace s = pre @ [DB (UpdateDocumentStatus st pk), DB Commit] @ post
         \<and> st = derive_status (chunk_outcomes env k pk plan
                   (make_chunks CHUNK_SIZE (get_object env k)) initial_state)
         \<and> summary_calls pre = []
         \<and> (st = COMPLETELY_FAILED \<longrightarrow> post = [] \<and> r = ReturnNone)
         \<and> (st \<noteq> COMPLETELY_FAILED \<longrightarrow>
              (\<exists>rest. post = LLMCall (SummaryMessages (build_summary_input
                                (make_chunks CHUNK_SIZE (get_object env k)))) # rest
                   \<and> summary_calls rest = []))"
proof -
  let ?chunks = "make_chunks CHUNK_SIZE (get_object env k)"
  let ?loop = "for_chunks env k pk plan ?chunks initial_state"
  let ?st = "derive_status (chunk_outcomes env k pk plan ?chunks initial_state)"
  from assms have rs: "finish_run env k pk ?chunks ?loop = (r, s)"
    by (simp add: handler_def run_pipeline_def Let_def)
  have pre: "summary_calls (trace ?loop) = []"
    using before_summary_loop [of env k pk plan ?chunks] by (simp add: before_summary_def)
  note st = loop_status [of env k pk plan ?chunks]
  show ?thesis
  proof (cases rule: finish_run_cases [of ?loop env k pk ?chunks])
    case completely_failed
    from completely_failed(1) st have "?st = COMPLETELY_FAILED" by simp
    moreover from completely_failed(2) rs
    have "trace s = trace ?loop @ [DB (UpdateDocumentStatus COMPLETELY_FAILED pk), DB Commit] @ []"
      and "r = ReturnNone"
      by auto
    ultimately show ?thesis using pre by force
  next
    case (summary_failed rep)
    from summary_failed(1) st have ne: "?st \<noteq> COMPLETELY_FAILED"
      and eq: "(if failed_at_least_once ?loop then PARTIAL_SUCCESS else PROCESSED) = ?st"
      by simp_all
    from summary_failed(3) rs
    have "trace s = trace ?loop @ [DB (UpdateDocumentStatus ?st pk), DB Commit]
            @ (LLMCall (SummaryMessages (build_summary_input ?chunks)) # [Report rep])"
      unfolding eq by auto
    moreover have "summary_calls [Report rep] = []" by simp
    ultimately show ?thesis using pre ne by blast
  next
    case (summary_saved summary)
    from summary_saved(1) st have ne: "?st \<noteq> COMPLETELY_FAILED"
      and eq: "(if failed_at_least_once ?loop then PARTIAL_SUCCESS else PROCESSED) = ?st"
      by simp_all
    from summary_saved(2) rs
    have "trace s = trace ?loop @ [DB (UpdateDocumentStatus ?st pk), DB Commit]
            @ (LLMCall (SummaryMessages (build_summary_input ?chunks))
                 # [DB (UpdateDocumentSummary summary pk), DB Commit, DB Close])"
      unfolding eq by auto
    moreover have "summary_calls [DB (UpdateDocumentSummary summary pk), DB Commit, DB Close] = []"
      by simp
    ultimately show ?thesis using pre ne by blast
  qed
qed


lemma failing_chunk_outcomes:
  "chunk_outcomes (example_env ''abc'' OtherLLMException good_summary) ''doc.txt'' 7 ''FREE''
     (make_chunks CHUNK_SIZE ''abc'') initial_state = [GeneralFailure]"
  by (simp add: make_chunks_def CHUNK_SIZE_def chunks_from.simps example_defs
      chunk_outcome_def Let_def initial_state_def)

theorem summary_attempted_unless_completely_failed_witness:
  "summary_calls
     (trace (snd (run_pipeline (example_env three_chunk_document two_pairs good_summary)
                    ''doc.txt'' 7 ''FREE'')))
     = [build_summary_input (make_chunks CHUNK_SIZE three_chunk_document)]
   \<and> summary_calls
     (trace (snd (run_pipeline (example_env ''abc'' OtherLLMException good_summary)
                    ''doc.txt'' 7 ''FREE''))) = []"
proof -
  let ?good = "example_env three_chunk_document two_pairs good_summary"
  let ?bad = "example_env ''abc'' OtherLLMException good_summary"
  let ?rg = "run_pipeline ?good ''doc.txt'' 7 ''FREE''"
  let ?rb = "run_pipeline ?bad ''doc.txt'' 7 ''FREE''"
  have hg: "handler ?good \<lparr>body_s3_key = Some ''doc.txt'', body_db_pk = Some 7,
                           body_subscription_plan = Some ''FREE''\<rparr> = Inr (fst ?rg, snd ?rg)"
    by (simp add: handler_def)
  have hb: "handler ?bad \<lparr>body_s3_key = Some ''doc.txt'', body_db_pk = Some 7,
                          body_subscription_plan = Some ''FREE''\<rparr> = Inr (fst ?rb, snd ?rb)"
    by (simp add: handler_def)
  have sg: "derive_status (chunk_outcomes ?good ''doc.txt'' 7 ''FREE''
              (make_chunks CHUNK_SIZE (get_object ?good ''doc.txt'')) initial_state) = PROCESSED"
    using three_chunk_outcomes by (simp add: example_env_def derive_status_def)
  have sb: "derive_status (chunk_outcomes ?bad ''doc.txt'' 7 ''FREE''
              (make_chunks CHUNK_SIZE (get_object ?bad ''doc.txt'')) initial_state)
            = COMPLETELY_FAILED"
    using failing_chunk_outcomes by (simp add: example_env_def derive_status_def)
  have docg: "get_object ?good ''doc.txt'' = three_chunk_document"
    by (simp add: example_env_def)
  from summary_attempted_unless_completely_failed [OF hg] sg
  have good: "summary_calls (trace (snd ?rg))
      = [build_summary_input (make_chunks CHUNK_SIZE three_chunk_document)]"
    unfolding docg by auto
  from summary_attempted_unless_completely_failed [OF hb] sb
  have bad: "summary_calls (trace (snd ?rb)) = []"
    by auto
  from good bad show ?thesis by simp
qed





section \<open>A response with a malformed element\<close>

lemma decide_delivery_known_plan:
  assumes "plan = SubscriptionPlanType_FREE \<or> plan = SubscriptionPlanType_PRO"
  shows "\<exists>d n. decide_delivery plan c = Inr (d, n)"
  using assms by (auto simp: decide_delivery_def)

lemma process_q_set_well_formed:
  assumes "pair_of q_set = [(q, a)]"
    and "decide_delivery plan (free_plan_question_expose_count s) = Inr (d, n)"
  shows "process_q_set plan pk q_set s
           = (None, commit (execute_query (InsertQuestion q a pk d)
                (s\<lparr>prev_questions := append_prev_question q (prev_questions s),
                   total_generated_question_count := total_generated_question_count s + 1,
                   free_plan_question_expose_count := n\<rparr>)))"
  using assms
  by (auto simp: pair_of_def process_q_set_def Let_def split: option.splits)

lemma process_q_set_malformed:
  assumes "pair_of q_set = []"
  shows "\<exists>e. process_q_set plan pk q_set s = (Some e, s)"
  using assms
  by (auto simp: pair_of_def process_q_set_def split: option.splits)

lemma for_q_sets_well_formed:
  assumes "\<forall>q_set \<in> set good. pair_of q_set \<noteq> []"
    and "plan = SubscriptionPlanType_FREE \<or> plan = SubscriptionPlanType_PRO"
    and "snd (db_after (trace s)) = []"
  shows "\<exists>s'. for_q_sets plan pk (good @ later) s = for_q_sets plan pk later s'
            \<and> snd (db_after (trace s')) = []
            \<and> map question_answer (persisted_questions (trace s'))
                = map question_answer (persisted_questions (trace s)) @ concat (map pair_of good)
            \<and> success_at_least_once s' = success_at_least_once s
            \<and> failed_at_least_once s' = failed_at_least_once s"
  using assms(1,3)
proof (induction good arbitrary: s)
  case Nil
  have "snd (db_after (trace s)) = []" by (rule Nil.prems(2))
  then show ?case by (intro exI [of _ s]) simp
next
  case (Cons q_set good)
  from Cons.prems(1) have "pair_of q_set \<noteq> []" by simp
  then obtain q a where qa: "pair_of q_set = [(q, a)]"
    by (auto simp: pair_of_def split: option.splits)
  from decide_delivery_known_plan [OF assms(2)] obtain d n where
    dec: "decide_delivery plan (free_plan_question_expose_count s) = Inr (d, n)"
    by blast
  let ?s1 = "commit (execute_query (InsertQuestion q a pk d)
                (s\<lparr>prev_questions := append_prev_question q (prev_questions s),
                   total_generated_question_count := total_generated_question_count s + 1,
                   free_plan_question_expose_count := n\<rparr>))"
  have step: "process_q_set plan pk q_set s = (None, ?s1)"
    using qa dec by (rule process_q_set_well_formed)
  have quiet1: "snd (db_after (trace ?s1)) = []"
    using Cons.prems(2) by (simp add: effect_defs)
  have rows1: "map question_answer (persisted_questions (trace ?s1))
      = map question_answer (persisted_questions (trace s)) @ [(q, a)]"
    using Cons.prems(2) by (simp add: effect_defs persisted_questions_def question_answer_def)
  have flags1: "success_at_least_once ?s1 = success_at_least_once s"
    "failed_at_least_once ?s1 = failed_at_least_once s"
    by (simp_all add: effect_defs)
  from Cons.prems(1) have rest: "\<forall>q_set \<in> set good. pair_of q_set \<noteq> []" by simp
  from Cons.IH [OF rest quiet1] obtain s' where
    s': "for_q_sets plan pk (good @ later) ?s1 = for_q_sets plan pk later s'"
      "snd (db_after (trace s')) = []"
      "map question_answer (persisted_questions (trace s'))
         = map question_answer (persisted_questions (trace ?s1)) @ concat (map pair_of good)"
      "success_at_least_once s' = success_at_least_once ?s1"
      "failed_at_least_once s' = failed_at_least_once ?s1"
    by blast
  show ?case
  proof (rule exI [of _ s'], intro conjI)
    show "for_q_sets plan pk ((q_set # good) @ later) s = for_q_sets plan pk later s'"
      using step s'(1) by simp
    show "snd (db_after (trace s')) = []" by (rule s'(2))
    show "map question_answer (persisted_questions (trace s'))
        = map question_answer (persisted_questions (trace s))
          @ concat (map pair_of (q_set # good))"
      using s'(3) rows1 qa by simp
    show "success_at_least_once s' = success_at_least_once s"
      using s'(4) flags1 by simp
    show "failed_at_least_once s' = failed_at_least_once s"
      using s'(5) flags1 by simp
  qed
qed



section \<open>The persisted rows are the generated questions\<close>

lemma insert_questions_pairs:
  assumes plan: "plan = SubscriptionPlanType_FREE \<or> plan = SubscriptionPlanType_PRO"
    and quiet: "snd (db_after (trace s)) = []"
  shows "snd (db_after (trace (snd (insert_questions plan pk resp s)))) = []
       \<and> map question_answer (persisted_questions (trace (snd (insert_questions plan pk resp s))))
           = map question_answer (persisted_questions (trace s)) @ processed_pairs resp"
proof (cases resp)
  case (JsonObject kvs)
  with quiet show ?thesis
    by (simp add: insert_questions_def processed_pairs_def)
next
  case (JsonArray q_sets)
  let ?good = "takeWhile (\<lambda>q_set. pair_of q_set \<noteq> []) q_sets"
  let ?later = "dropWhile (\<lambda>q_set. pair_of q_set \<noteq> []) q_sets"
  have split: "q_sets = ?good @ ?later" by simp
  have good: "\<forall>q_set \<in> set ?good. pair_of q_set \<noteq> []"
    by (auto dest: set_takeWhileD)
  from for_q_sets_well_formed [OF good plan quiet, of pk ?later] obtain s' where
    s': "for_q_sets plan pk (?good @ ?later) s = for_q_sets plan pk ?later s'"
      "snd (db_after (trace s')) = []"
      "map question_answer (persisted_questions (trace s'))
         = map question_answer (persisted_questions (trace s)) @ concat (map pair_of ?good)"
    by blast
  have "snd (for_q_sets plan pk ?later s') = s'"
  proof (cases ?later)
    case Nil
    show ?thesis unfolding Nil by simp
  next
    case (Cons bad rest)
    then have ne: "?later \<noteq> []" by simp
    from hd_dropWhile [OF ne] Cons have "pair_of bad = []" by simp
    from process_q_set_malformed [OF this, of plan pk s'] obtain e where
      "process_q_set plan pk bad s' = (Some e, s')" by blast
    with Cons show ?thesis by simp
  qed
  with s'(1) have "snd (for_q_sets plan pk q_sets s) = s'"
    by simp
  with JsonArray s'(2,3) show ?thesis
    by (simp add: insert_questions_def processed_pairs_def)
qed

lemma process_chunk_pairs:
  assumes plan: "plan = SubscriptionPlanType_FREE \<or> plan = SubscriptionPlanType_PRO"
    and quiet: "snd (db_after (trace s)) = []"
  shows "snd (db_after (trace (process_chunk env k pk plan chunk s))) = []
       \<and> map question_answer (persisted_questions (trace (process_chunk env k pk plan chunk s)))
           = map question_answer (persisted_questions (trace s))
             @ response_pairs (predict_json env (trace s)
                 (QuestionMessages chunk (join_newline (prev_questions s))))"
proof -
  let ?m = "QuestionMessages chunk (join_newline (prev_questions s))"
  let ?s1 = "add_event (LLMCall ?m) s"
  have quiet1: "snd (db_after (trace ?s1)) = []"
    using quiet by (simp add: effect_defs)
  have rows1: "persisted_questions (trace ?s1) = persisted_questions (trace s)"
    by (simp add: effect_defs persisted_questions_def)
  show ?thesis
  proof (cases "predict_json env (trace s) ?m")
    case (Parsed resp)
    obtain e s2 where ins: "insert_questions plan pk resp ?s1 = (e, s2)"
      by (cases "insert_questions plan pk resp ?s1")
    from insert_questions_pairs [OF plan quiet1, of pk resp] ins rows1
    have s2: "snd (db_after (trace s2)) = []"
      "map question_answer (persisted_questions (trace s2))
         = map question_answer (persisted_questions (trace s)) @ processed_pairs resp"
      by simp_all
    from Parsed ins s2 show ?thesis
      by (cases e)
         (simp_all add: process_chunk_def response_pairs_def Let_def effect_defs
            persisted_questions_def)
  next
    case (InvalidLLMJsonResponseError raw)
    with quiet show ?thesis
      by (simp add: process_chunk_def response_pairs_def Let_def effect_defs
          persisted_questions_def)
  next
    case OtherLLMException
    with quiet show ?thesis
      by (simp add: process_chunk_def response_pairs_def Let_def effect_defs
          persisted_questions_def)
  qed
qed

lemma for_chunks_pairs:
  assumes plan: "plan = SubscriptionPlanType_FREE \<or> plan = SubscriptionPlanType_PRO"
    and quiet: "snd (db_after (trace s)) = []"
  shows "map question_answer (persisted_questions (trace (for_chunks env k pk plan chunks s)))
           = map question_answer (persisted_questions (trace s))
             @ generated_pairs env k pk plan chunks s"
  using quiet
proof (induction chunks arbitrary: s)
  case Nil
  show ?case by simp
next
  case (Cons chunk chunks)
  from process_chunk_pairs [OF plan Cons.prems, of env k pk chunk]
  have step: "snd (db_after (trace (process_chunk env k pk plan chunk s))) = []"
    "map question_answer (persisted_questions (trace (process_chunk env k pk plan chunk s)))
       = map question_answer (persisted_questions (trace s))
         @ response_pairs (predict_json env (trace s)
             (QuestionMessages chunk (join_newline (prev_questions s))))"
    by simp_all
  from Cons.IH [OF step(1)] step(2) show ?case by simp
qed

lemma rows_of_document_loop:
  "rows_of_document pk (for_chunks env k pk plan chunks initial_state)"
proof (rule for_chunks_preserves [where P = "rows_of_document pk"])
  show "rows_of_document pk initial_state"
    by (simp add: rows_of_document_def initial_state_def persisted_questions_def)
next
  fix s :: state and q a :: string and d n :: nat
  assume "rows_of_document pk s"
  then show "rows_of_document pk (commit (execute_query (InsertQuestion q a pk d)
           (s\<lparr>prev_questions := append_prev_question q (prev_questions s),
              total_generated_question_count := total_generated_question_count s + 1,
              free_plan_question_expose_count := n\<rparr>)))"
    by (simp add: rows_of_document_def effect_defs persisted_questions_def row_document_def
        replicate_append_same)
qed (simp_all add: rows_of_document_def effect_defs persisted_questions_def)


text \<open>
  Claim C5. The questions generated by a run are the pairs that the loop takes from the
  answers of the model client, chunk after chunk; let \<open>N\<close> be their number. Under the
  FREE and under the PRO plan the persisted question rows are exactly these pairs, in
  generation order, each under the document id of the run, and the counter of line 89
  ends at \<open>N\<close>. Under the FREE plan the delivered flags of the rows are \<open>min N 5\<close> ones
  followed by \<open>N - 5\<close> zeros (none when \<open>N\<close> is at most 5); under the PRO plan they are
  \<open>N\<close> ones.
\<close>

theorem delivery_quota:
  assumes "handler env \<lparr>body_s3_key = Some k, body_db_pk = Some pk,
                         body_subscription_plan = Some plan\<rparr> = Inr (r, s)"
  shows "(plan = SubscriptionPlanType_FREE \<longrightarrow>
            map question_answer (persisted_questions (trace s))
              = generated_pairs env k pk plan
                  (make_chunks CHUNK_SIZE (get_object env k)) initial_state
          \<and> map row_document (persisted_questions (trace s))
              = replicate (length (generated_pairs env k pk plan
                  (make_chunks CHUNK_SIZE (get_object env k)) initial_state)) pk
          \<and> total_generated_question_count s
              = length (generated_pairs env k pk plan
                  (make_chunks CHUNK_SIZE (get_object env k)) initial_state)
          \<and> total_generated_question_count s = length (persisted_questions (trace s))
          \<and> delivered_counts (trace s)
              = replicate (min (total_generated_question_count s) FREE_PLAN_QUIZ_QUESTION_NUM) 1
                @ replicate (total_generated_question_count s - FREE_PLAN_QUIZ_QUESTION_NUM) 0)
       \<and> (plan = SubscriptionPlanType_PRO \<longrightarrow>
            map question_answer (persisted_questions (trace s))
              = generated_pairs env k pk plan
                  (make_chunks CHUNK_SIZE (get_object env k)) initial_state
          \<and> map row_document (persisted_questions (trace s))
              = replicate (length (generated_pairs env k pk plan
                  (make_chunks CHUNK_SIZE (get_object env k)) initial_state)) pk
          \<and> total_generated_question_count s
              = length (generated_pairs env k pk plan
                  (make_chunks CHUNK_SIZE (get_object env k)) initial_state)
          \<and> total_generated_question_count s = length (persisted_questions (trace s))
          \<and> delivered_counts (trace s) = replicate (total_generated_question_count s) 1)"
proof -
  let ?chunks = "make_chunks CHUNK_SIZE (get_object env k)"
  let ?loop = "for_chunks env k pk plan ?chunks initial_state"
  let ?G = "generated_pairs env k pk plan ?chunks initial_state"
  from assms have s: "s = snd (finish_run env k pk ?chunks ?loop)"
    by (simp add: handler_def run_pipeline_def Let_def)
  have total: "total_generated_question_count s = total_generated_question_count ?loop"
    unfolding s by (rule finish_run_total)
  have docs: "rows_of_document pk ?loop" by (rule rows_of_document_loop)
  then have quiet: "snd (db_after (trace ?loop)) = []"
    by (simp add: rows_of_document_def)
  have rows: "persisted_questions (trace s) = persisted_questions (trace ?loop)"
    unfolding s using quiet by (rule finish_run_questions)
  have quiet0: "snd (db_after (trace initial_state)) = []"
    by (simp add: initial_state_def)
  have rows0: "persisted_questions (trace initial_state) = []"
    by (simp add: initial_state_def persisted_questions_def)
  have pairs: "plan = SubscriptionPlanType_FREE \<or> plan = SubscriptionPlanType_PRO \<Longrightarrow>
      map question_answer (persisted_questions (trace s)) = ?G"
    using for_chunks_pairs [OF _ quiet0, of plan env k pk ?chunks] rows rows0 by simp
  have len: "plan = SubscriptionPlanType_FREE \<or> plan = SubscriptionPlanType_PRO \<Longrightarrow>
      length (persisted_questions (trace s)) = length ?G"
  proof -
    assume "plan = SubscriptionPlanType_FREE \<or> plan = SubscriptionPlanType_PRO"
    then have "length (map question_answer (persisted_questions (trace s))) = length ?G"
      by (simp only: pairs)
    then show ?thesis by simp
  qed
  have ids: "map row_document (persisted_questions (trace s))
      = replicate (length (persisted_questions (trace s))) pk"
    using docs rows by (simp add: rows_of_document_def)
  have free: "plan = SubscriptionPlanType_FREE \<longrightarrow>
            map question_answer (persisted_questions (trace s)) = ?G
          \<and> map row_document (persisted_questions (trace s)) = replicate (length ?G) pk
          \<and> total_generated_question_count s = length ?G
          \<and> total_generated_question_count s = length (persisted_questions (trace s))
          \<and> delivered_counts (trace s)
              = replicate (min (total_generated_question_count s) FREE_PLAN_QUIZ_QUESTION_NUM) 1
                @ replicate (total_generated_question_count s - FREE_PLAN_QUIZ_QUESTION_NUM) 0"
  proof
    assume plan: "plan = SubscriptionPlanType_FREE"
    have inv: "free_quota_inv ?loop"
      unfolding plan by (rule free_quota_inv_loop)
    from plan have known: "plan = SubscriptionPlanType_FREE \<or> plan = SubscriptionPlanType_PRO"
      by simp
    from inv rows total pairs [OF known] len [OF known] ids
    show "map question_answer (persisted_questions (trace s)) = ?G
          \<and> map row_document (persisted_questions (trace s)) = replicate (length ?G) pk
          \<and> total_generated_question_count s = length ?G
          \<and> total_generated_question_count s = length (persisted_questions (trace s))
          \<and> delivered_counts (trace s)
              = replicate (min (total_generated_question_count s) FREE_PLAN_QUIZ_QUESTION_NUM) 1
                @ replicate (total_generated_question_count s - FREE_PLAN_QUIZ_QUESTION_NUM) 0"
      by (simp add: free_quota_inv_def delivered_counts_def)
  qed
  have pro: "plan = SubscriptionPlanType_PRO \<longrightarrow>
            map question_answer (persisted_questions (trace s)) = ?G
          \<and> map row_document (persisted_questions (trace s)) = replicate (length ?G) pk
          \<and> total_generated_question_count s = length ?G
          \<and> total_generated_question_count s = length (persisted_questions (trace s))
          \<and> delivered_counts (trace s) = replicate (total_generated_question_count s) 1"
  proof
    assume plan: "plan = SubscriptionPlanType_PRO"
    have inv: "pro_inv ?loop"
      unfolding plan by (rule pro_inv_loop)
    from plan have known: "plan = SubscriptionPlanType_FREE \<or> plan = SubscriptionPlanType_PRO"
      by simp
    from inv rows total pairs [OF known] len [OF known] ids
    show "map question_answer (persisted_questions (trace s)) = ?G
          \<and> map row_document (persisted_questions (trace s)) = replicate (length ?G) pk
          \<and> total_generated_question_count s = length ?G
          \<and> total_generated_question_count s = length (persisted_questions (trace s))
          \<and> delivered_counts (trace s) = replicate (total_generated_question_count s) 1"
      by (simp add: pro_inv_def delivered_counts_def)
  qed
  from free pro show ?thesis by blast
qed

lemma three_chunk_generated:
  "generated_pairs (example_env three_chunk_document two_pairs good_summary) ''doc.txt'' 7 plan
     (make_chunks CHUNK_SIZE three_chunk_document) initial_state
   = [(''Q1'', ''A1''), (''Q2'', ''A2''), (''Q1'', ''A1''), (''Q2'', ''A2''),
      (''Q1'', ''A1''), (''Q2'', ''A2'')]"
  by (simp add: three_chunks example_defs response_pairs_def processed_pairs_def pair_of_def)

lemma eight_pairs_generated:
  "generated_pairs (example_env ''abc'' eight_pairs good_summary) ''doc.txt'' 7 plan
     (make_chunks CHUNK_SIZE ''abc'') initial_state
   = [(''Q1'', ''A1''), (''Q2'', ''A2''), (''Q3'', ''A3''), (''Q4'', ''A4''),
      (''Q5'', ''A5''), (''Q6'', ''A6''), (''Q7'', ''A7''), (''Q8'', ''A8'')]"
  by (simp add: make_chunks_def CHUNK_SIZE_def chunks_from.simps example_env_def
      scripted_llm_def eight_pairs_def qa_def response_pairs_def processed_pairs_def
      pair_of_def)

theorem delivery_quota_witness:
  "map question_answer (persisted_questions
     (trace (snd (run_pipeline (example_env three_chunk_document two_pairs good_summary)
                    ''doc.txt'' 7 ''FREE''))))
     = [(''Q1'', ''A1''), (''Q2'', ''A2''), (''Q1'', ''A1''), (''Q2'', ''A2''),
        (''Q1'', ''A1''), (''Q2'', ''A2'')]
   \<and> delivered_counts
     (trace (snd (run_pipeline (example_env three_chunk_document two_pairs good_summary)
                    ''doc.txt'' 7 ''FREE''))) = [1, 1, 1, 1, 1, 0]
   \<and> map question_answer (persisted_questions
     (trace (snd (run_pipeline (example_env ''abc'' eight_pairs good_summary)
                    ''doc.txt'' 7 ''PRO''))))
     = [(''Q1'', ''A1''), (''Q2'', ''A2''), (''Q3'', ''A3''), (''Q4'', ''A4''),
        (''Q5'', ''A5''), (''Q6'', ''A6''), (''Q7'', ''A7''), (''Q8'', ''A8'')]
   \<and> delivered_counts
     (trace (snd (run_pipeline (example_env ''abc'' eight_pairs good_summary)
                    ''doc.txt'' 7 ''PRO''))) = [1, 1, 1, 1, 1, 1, 1, 1]"
proof -
  let ?e3 = "example_env three_chunk_document two_pairs good_summary"
  let ?e8 = "example_env ''abc'' eight_pairs good_summary"
  let ?free = "run_pipeline ?e3 ''doc.txt'' 7 ''FREE''"
  let ?pro = "run_pipeline ?e8 ''doc.txt'' 7 ''PRO''"
  have hf: "handler ?e3 \<lparr>body_s3_key = Some ''doc.txt'', body_db_pk = Some 7,
                         body_subscription_plan = Some ''FREE''\<rparr> = Inr (fst ?free, snd ?free)"
    by (simp add: handler_def)
  have hp: "handler ?e8 \<lparr>body_s3_key = Some ''doc.txt'', body_db_pk = Some 7,
                         body_subscription_plan = Some ''PRO''\<rparr> = Inr (fst ?pro, snd ?pro)"
    by (simp add: handler_def)
  have d3: "get_object ?e3 ''doc.txt'' = three_chunk_document"
    and d8: "get_object ?e8 ''doc.txt'' = ''abc''"
    by (simp_all add: example_env_def)
  from delivery_quota [OF hf] three_chunk_generated [of "''FREE''"]
  have free: "map question_answer (persisted_questions (trace (snd ?free)))
       = [(''Q1'', ''A1''), (''Q2'', ''A2''), (''Q1'', ''A1''), (''Q2'', ''A2''),
          (''Q1'', ''A1''), (''Q2'', ''A2'')]"
    "delivered_counts (trace (snd ?free)) = [1, 1, 1, 1, 1, 0]"
    by (simp_all add: plan_defs d3 numeral_eq_Suc)
  from delivery_quota [OF hp] eight_pairs_generated [of "''PRO''"]
  have pro: "map question_answer (persisted_questions (trace (snd ?pro)))
       = [(''Q1'', ''A1''), (''Q2'', ''A2''), (''Q3'', ''A3''), (''Q4'', ''A4''),
          (''Q5'', ''A5''), (''Q6'', ''A6''), (''Q7'', ''A7''), (''Q8'', ''A8'')]"
    "delivered_counts (trace (snd ?pro)) = [1, 1, 1, 1, 1, 1, 1, 1]"
    by (simp_all add: plan_defs d8 numeral_eq_Suc)
  from free pro show ?thesis by simp
qed

end
